theory Spec2Isabelle
  imports Complex_Main "HOL-Library.Word"
begin

section \<open>AtmoScan user-interface manager (P\_UIManager.cpp)\<close>

text \<open>
  A shallow embedding of \<^verbatim>\<open>Proc_UIManager\<close>: the periodic \<^verbatim>\<open>service()\<close> tick, the
  gesture interrupt handler \<^verbatim>\<open>onGesture()\<close>, the gesture decoder \<^verbatim>\<open>getUserEvent()\<close>,
  the swipe handler \<^verbatim>\<open>handleSwipe()\<close> and the display and battery helpers.

  Conventions of the model.
  \<^item> \<^verbatim>\<open>millis()\<close> is an \<^verbatim>\<open>unsigned long\<close> of 32 bits: times are \<open>32 word\<close>, and a
    difference \<^verbatim>\<open>millis() - x\<close> wraps as the C expression does. The field \<open>clock\<close> of
    the state is what \<^verbatim>\<open>millis()\<close> returns; a tick sets it from its input and every
    \<^verbatim>\<open>delay(n)\<close> advances it by \<open>n\<close>; statements other than \<^verbatim>\<open>delay\<close> take no time.
  \<^item> \<^verbatim>\<open>float\<close> values (cell voltage, state of charge) are \<open>real\<close>: rounding, infinities
    and NaN are not modelled.
  \<^item> Calls into collaborators (display, screens, scheduler, sibling tasks, sensors) are
    recorded, in program order, in the field \<open>trace\<close> of the state.
  \<^item> Values read from collaborators during one tick are the fields of \<open>tick_in\<close>.
  \<^item> The interrupt handler runs between ticks (\<open>Interrupt\<close> steps of a run) and inside
    the blocking delays of the event branch (\<open>irq_in_delay\<close>); the delays of the sensor
    re-initialisation and of the restart path are taken without an interrupt.
  \<^item> Macros and declarations of headers that are not part of the sources at hand
    (\<^verbatim>\<open>GlobalDefinitions.h\<close>, \<^verbatim>\<open>P_UIManager.h\<close>, the screen classes, the screen factory) are
    the fields of \<open>config\<close>.
\<close>

type_synonym millis = "32 word"

subsection \<open>Gesture codes\<close>

text \<open>
  The codes \<^verbatim>\<open>GES_*\<close> of the gesture sensor's driver. \<^verbatim>\<open>readGesture()\<close> returns an
  \<^verbatim>\<open>int\<close>; \<open>GES_OTHER n\<close> stands for a raw value \<open>n\<close> that is none of the ten named codes.
\<close>

datatype gesture =
    GES_UP | GES_DOWN | GES_LEFT | GES_RIGHT
  | GES_FORWARD | GES_BACKWARD | GES_CLOCKWISE | GES_CNTRCLOCKWISE | GES_WAVE
  | GES_NONE
  | GES_OTHER int

subsection \<open>Sibling tasks and recorded calls\<close>

text \<open>The members of \<^verbatim>\<open>procPtr\<close> that \<^verbatim>\<open>service()\<close> disables on low battery.\<close>

datatype task =
    ComboTemperatureHumiditySensor | ComboPressureHumiditySensor | ParticleSensor
  | CO2Sensor | VOCSensor | MultiGasSensor | MQTTUpdate | GeigerSensor | GeoLocation

datatype action =
    ErrLog
  | SyslogCrit
  | SyslogInfo
  | GestureBegin
  | Delay millis
  | ReadVCell
  | Deactivate int
  | Destroy int
  | Construct int
  | Activate int
  | Update int
  | OnUserEvent int gesture
  | DrawBar bool
  | SetPeriod millis
  | Disable task
  | Restart
  | ReadGesture
  | CancelGesture
  | LcdInit
  | LcdSetRotation int
  | LcdFillScreen
  | DrawIcon
  | PinModeBacklight
  | Backlight bool
  | Force

subsection \<open>Configuration, screens, state\<close>

record config =
  ENABLE_SENSORS :: bool
  KILL_INSTALLED :: bool
  VOLT_LOW :: real
  VOLT_HIGH :: real
  AVERAGING_WINDOW :: nat
  BACKLIGHT_TIMEOUT :: millis
  LOWBATT_SCREEN :: int
  SETUP_SCREEN :: int
  getScreenCount :: int
  isFullScreen :: "int \<Rightarrow> bool"
  getRefreshPeriod :: "int \<Rightarrow> millis"
  getRefreshWithScreenOff :: "int \<Rightarrow> bool"
  newLastUpdate :: millis

text \<open>A live \<^verbatim>\<open>Screen\<close> object: which screen it is, and its public field \<^verbatim>\<open>lastUpdate\<close>.\<close>

record screen =
  scr_id :: int
  lastUpdate :: millis

record state =
  initSuccess :: bool
  lastBatteryAveraging :: millis
  avgVolt :: "real list"
  avgSOC :: "real list"
  currentScreenID :: int
  currentScreen :: screen
  currentScreenRotation :: int
  eventFlag :: bool
  eventTime :: millis
  lastEventProcessing :: millis
  isDisplayOn :: bool
  displayInitialized :: bool
  clock :: millis
  restarted :: bool
  trace :: "action list"

text \<open>What one call of \<^verbatim>\<open>service()\<close> reads from its collaborators.\<close>

record tick_in =
  t_now :: millis
  gesture_begin :: "nat \<Rightarrow> nat"
  vcell :: real
  raw_gesture :: gesture
  handled :: bool
  irq_in_delay :: "millis option"

subsection \<open>Averaging filter\<close>

text \<open>
  Modelled from the spec: the class \<^verbatim>\<open>Average<float>\<close> behind \<^verbatim>\<open>avgVolt\<close> and \<^verbatim>\<open>avgSOC\<close>
  is not part of the sources. The spec describes a fixed-capacity window of samples in
  time order whose oldest sample is evicted on overflow, with a mean over the window.
  The window is kept newest first; the mean of an empty window is taken as 0.
\<close>

definition push_avg :: "nat \<Rightarrow> real \<Rightarrow> real list \<Rightarrow> real list" where
  "push_avg n x w = take n (x # w)"

definition mean :: "real list \<Rightarrow> real" where
  "mean w = (if w = [] then 0 else sum_list w / real (length w))"

definition getVolt :: "state \<Rightarrow> real" where
  "getVolt s = mean (avgVolt s)"

definition getSoC :: "state \<Rightarrow> real" where
  "getSoC s = mean (avgSOC s)"

subsection \<open>Small helpers\<close>

definition emit :: "action \<Rightarrow> state \<Rightarrow> state" where
  "emit a s = s\<lparr>trace := trace s @ [a]\<rparr>"

definition delay :: "millis \<Rightarrow> state \<Rightarrow> state" where
  "delay n s = emit (Delay n) (s\<lparr>clock := clock s + n\<rparr>)"

text \<open>
  \<^verbatim>\<open>onGesture()\<close>, run at time \<open>t\<close>: nothing when the flag is set; otherwise set the flag,
  force scheduling, stamp the event time.
\<close>

definition onGesture :: "millis \<Rightarrow> state \<Rightarrow> state" where
  "onGesture t s =
     (if \<not> eventFlag s
      then (emit Force (s\<lparr>eventFlag := True\<rparr>))\<lparr>eventTime := t\<rparr>
      else s)"

text \<open>A blocking delay during which the gesture interrupt may fire once.\<close>

definition delay_irq :: "millis \<Rightarrow> millis option \<Rightarrow> state \<Rightarrow> state" where
  "delay_irq n irq s =
     (case irq of None \<Rightarrow> delay n s | Some t \<Rightarrow> onGesture t (delay n s))"

definition initDisplay :: "state \<Rightarrow> state" where
  "initDisplay s =
     (if \<not> displayInitialized s
      then (emit PinModeBacklight s)\<lparr>displayInitialized := True\<rparr>
      else s)"

definition displayOn :: "state \<Rightarrow> state" where
  "displayOn s = (emit (Backlight True) (initDisplay s))\<lparr>isDisplayOn := True\<rparr>"

definition displayOff :: "state \<Rightarrow> state" where
  "displayOff s = (emit (Backlight False) (initDisplay s))\<lparr>isDisplayOn := False\<rparr>"

text \<open>
  \<^verbatim>\<open>initGesture()\<close>: up to three calls of \<^verbatim>\<open>begin()\<close>; the \<open>i\<close>-th call of the tick returns
  the error code \<open>b i\<close>, and a failed call is logged and followed by a 2000 ms delay.
\<close>

fun initGesture_from :: "nat \<Rightarrow> nat \<Rightarrow> (nat \<Rightarrow> nat) \<Rightarrow> state \<Rightarrow> bool \<times> state" where
  "initGesture_from 0 i b s = (False, s)"
| "initGesture_from (Suc k) i b s =
     (let s1 = emit GestureBegin s
      in if b i = 0 then (True, s1)
         else initGesture_from k (Suc i) b (delay 2000 (emit ErrLog s1)))"

definition initGesture :: "(nat \<Rightarrow> nat) \<Rightarrow> state \<Rightarrow> bool \<times> state" where
  "initGesture b s = initGesture_from 3 0 b s"

subsection \<open>Gesture decoding and swipes\<close>

text \<open>
  The \<^verbatim>\<open>switch\<close> of \<^verbatim>\<open>getUserEvent()\<close>. Its \<^verbatim>\<open>default\<close> label exists in debug builds only and
  only logs; the variable \<^verbatim>\<open>gesture\<close> is returned as it stands.
\<close>

fun remap_gesture :: "int \<Rightarrow> gesture \<Rightarrow> gesture" where
  "remap_gesture rot GES_UP = (if rot = 0 then GES_LEFT else GES_RIGHT)"
| "remap_gesture rot GES_DOWN = (if rot = 0 then GES_RIGHT else GES_LEFT)"
| "remap_gesture rot GES_LEFT = (if rot = 0 then GES_DOWN else GES_UP)"
| "remap_gesture rot GES_RIGHT = (if rot = 0 then GES_UP else GES_DOWN)"
| "remap_gesture rot GES_FORWARD = GES_FORWARD"
| "remap_gesture rot GES_BACKWARD = GES_BACKWARD"
| "remap_gesture rot GES_CLOCKWISE = GES_CLOCKWISE"
| "remap_gesture rot GES_CNTRCLOCKWISE = GES_CNTRCLOCKWISE"
| "remap_gesture rot GES_WAVE = GES_WAVE"
| "remap_gesture rot g = g"

definition getUserEvent :: "gesture \<Rightarrow> state \<Rightarrow> gesture \<times> state" where
  "getUserEvent raw s = (remap_gesture (currentScreenRotation s) raw, emit ReadGesture s)"

text \<open>\<^verbatim>\<open>handleSwipe()\<close>; screen identifiers are \<^verbatim>\<open>int\<close>, taken here without overflow.\<close>

definition handleSwipe :: "config \<Rightarrow> gesture \<Rightarrow> int \<Rightarrow> int" where
  "handleSwipe cfg evt curScrn =
     (if evt = GES_RIGHT then
        (let c = curScrn + 1 in if c \<ge> getScreenCount cfg then 1 else c)
      else if evt = GES_LEFT then
        (let c = curScrn - 1 in if c < 1 then getScreenCount cfg - 1 else c)
      else curScrn)"

subsection \<open>Screen transitions\<close>

definition createScreen :: "config \<Rightarrow> int \<Rightarrow> screen" where
  "createScreen cfg sid = \<lparr>scr_id = sid, lastUpdate = newLastUpdate cfg\<rparr>"

text \<open>\<^verbatim>\<open>if (!currentScreen->isFullScreen()) drawBar(force);\<close>\<close>

definition drawBar_unless_full :: "config \<Rightarrow> bool \<Rightarrow> state \<Rightarrow> state" where
  "drawBar_unless_full cfg force s =
     (if \<not> isFullScreen cfg (scr_id (currentScreen s)) then emit (DrawBar force) s else s)"

definition siblings :: "task list" where
  "siblings = [ComboTemperatureHumiditySensor, ComboPressureHumiditySensor, ParticleSensor,
     CO2Sensor, VOCSensor, MultiGasSensor, MQTTUpdate, GeigerSensor, GeoLocation]"

definition disable_siblings :: "state \<Rightarrow> state" where
  "disable_siblings s = s\<lparr>trace := trace s @ map Disable siblings\<rparr>"

text \<open>Lines 129 to 161: the forced change to the low-battery screen.\<close>

definition enter_lowbatt :: "config \<Rightarrow> state \<Rightarrow> state" where
  "enter_lowbatt cfg s =
     (let s = emit SyslogCrit s;
          s = emit (Deactivate (scr_id (currentScreen s))) s;
          s = emit (Destroy (scr_id (currentScreen s))) s;
          s = s\<lparr>currentScreenID := LOWBATT_SCREEN cfg\<rparr>;
          s = emit (Construct (LOWBATT_SCREEN cfg))
                (s\<lparr>currentScreen := createScreen cfg (LOWBATT_SCREEN cfg)\<rparr>);
          s = emit (Activate (scr_id (currentScreen s))) s;
          s = drawBar_unless_full cfg True s;
          s = emit (SetPeriod (getRefreshPeriod cfg (scr_id (currentScreen s)))) s
      in if KILL_INSTALLED cfg then s else disable_siblings s)"

text \<open>Lines 252 to 282: the counter-clockwise gesture opens the setup screen.\<close>

definition enter_setup :: "config \<Rightarrow> tick_in \<Rightarrow> state \<Rightarrow> state" where
  "enter_setup cfg i s =
     (let s = emit DrawIcon s;
          s = delay_irq 250 (irq_in_delay i) s;
          s = emit (Deactivate (scr_id (currentScreen s))) s;
          s = emit (Destroy (scr_id (currentScreen s))) s;
          s = s\<lparr>currentScreenID := SETUP_SCREEN cfg\<rparr>;
          s = emit (Construct (currentScreenID s))
                (s\<lparr>currentScreen := createScreen cfg (currentScreenID s)\<rparr>);
          s = emit (Activate (scr_id (currentScreen s))) s;
          s = drawBar_unless_full cfg True s
      in emit (SetPeriod (getRefreshPeriod cfg (scr_id (currentScreen s)))) s)"

text \<open>Lines 290 to 321: the clockwise gesture rotates the display; the screen is kept.\<close>

definition rotate_screen :: "config \<Rightarrow> tick_in \<Rightarrow> state \<Rightarrow> state" where
  "rotate_screen cfg i s =
     (let s = emit DrawIcon s;
          s = delay_irq 250 (irq_in_delay i) s;
          s = s\<lparr>currentScreenRotation := (if currentScreenRotation s = 0 then 2 else 0)\<rparr>;
          s = emit (Deactivate (scr_id (currentScreen s))) s;
          s = emit (LcdSetRotation (currentScreenRotation s)) s;
          s = emit LcdFillScreen s;
          s = emit (Activate (scr_id (currentScreen s))) s;
          s = s\<lparr>currentScreen := (currentScreen s)\<lparr>lastUpdate := 0\<rparr>\<rparr>
      in drawBar_unless_full cfg True s)"

text \<open>Lines 327 to 375: a swipe; nothing happens when the identifier does not change.\<close>

definition swipe_screen :: "config \<Rightarrow> tick_in \<Rightarrow> gesture \<Rightarrow> state \<Rightarrow> state" where
  "swipe_screen cfg i eventID s =
     (let newScreenID = handleSwipe cfg eventID (currentScreenID s)
      in if newScreenID \<noteq> currentScreenID s then
           (let s = (if eventID = GES_RIGHT \<or> eventID = GES_LEFT then emit DrawIcon s else s);
                s = delay_irq 250 (irq_in_delay i) s;
                s = emit (Deactivate (scr_id (currentScreen s))) s;
                s = emit (Destroy (scr_id (currentScreen s))) s;
                s = emit (Construct newScreenID)
                      (s\<lparr>currentScreen := createScreen cfg newScreenID\<rparr>);
                s = emit (Activate (scr_id (currentScreen s))) s;
                s = drawBar_unless_full cfg True s;
                s = emit (SetPeriod (getRefreshPeriod cfg (scr_id (currentScreen s)))) s
            in s\<lparr>currentScreenID := newScreenID\<rparr>)
         else s)"

subsection \<open>The phases of \<^verbatim>\<open>service()\<close>\<close>

text \<open>Lines 93 to 101: retry the sensor initialisation (only with \<^verbatim>\<open>ENABLE_SENSORS\<close>).\<close>

definition retry_init :: "config \<Rightarrow> tick_in \<Rightarrow> state \<Rightarrow> state" where
  "retry_init cfg i s =
     (if ENABLE_SENSORS cfg \<and> \<not> initSuccess s then
        (case initGesture (gesture_begin i) (emit ErrLog s) of
           (ok, s') \<Rightarrow> s'\<lparr>initSuccess := ok\<rparr>)
      else s)"

text \<open>
  Line 116 and the argument of the push of line 117. The macros are floating-point
  volts, so the division is a floating-point division.
\<close>

definition soc_sample :: "config \<Rightarrow> real \<Rightarrow> real" where
  "soc_sample cfg v =
     (let SoC = 100 / (VOLT_HIGH cfg - VOLT_LOW cfg) * (v - VOLT_LOW cfg)
      in if SoC > 100 then 100 else SoC)"

text \<open>
  Lines 104 to 118. \<^verbatim>\<open>thisTime\<close> is a \<^verbatim>\<open>long\<close>; \<^verbatim>\<open>lastBatteryAveraging\<close> is taken to be
  one too, so the comparison is signed (were it an \<^verbatim>\<open>unsigned long\<close>, the comparison
  would be unsigned; the two agree while both times are below \<open>2 ^ 31\<close> ms). The sample
  of the state of charge is computed from the averaged voltage after the push of the
  new cell voltage.
\<close>

definition battery_averaging :: "config \<Rightarrow> tick_in \<Rightarrow> state \<Rightarrow> state" where
  "battery_averaging cfg i s =
     (let thisTime = clock s
      in if sint (lastBatteryAveraging s + 10000) < sint thisTime then
           (let s = s\<lparr>lastBatteryAveraging := thisTime\<rparr>;
                s = emit ReadVCell (s\<lparr>avgVolt := push_avg (AVERAGING_WINDOW cfg) (vcell i) (avgVolt s)\<rparr>)
            in s\<lparr>avgSOC := push_avg (AVERAGING_WINDOW cfg) (soc_sample cfg (getVolt s)) (avgSOC s)\<rparr>)
         else s)"

text \<open>Lines 122 to 173. \<^verbatim>\<open>ESP.restart()\<close> does not return: \<open>restarted\<close> ends the tick.\<close>

definition lowbatt_check :: "config \<Rightarrow> state \<Rightarrow> state" where
  "lowbatt_check cfg s =
     (if getVolt s \<le> VOLT_LOW cfg then
        (if currentScreenID s \<noteq> LOWBATT_SCREEN cfg then enter_lowbatt cfg s else s)
      else if getVolt s > (VOLT_HIGH cfg + VOLT_LOW cfg) / 2
              \<and> currentScreenID s = LOWBATT_SCREEN cfg then
        (emit Restart (delay 1000 (emit SyslogInfo s)))\<lparr>restarted := True\<rparr>
      else s)"

text \<open>Lines 201 to 378: what is done with a decoded event.\<close>

definition dispatch_event :: "config \<Rightarrow> tick_in \<Rightarrow> gesture \<Rightarrow> state \<Rightarrow> state" where
  "dispatch_event cfg i eventID s =
     (if \<not> isDisplayOn s then
        displayOn (delay_irq 10 (irq_in_delay i) (emit LcdInit s))
      else if currentScreenID s = LOWBATT_SCREEN cfg then
        s
      else if eventID = GES_FORWARD then
        (let s = displayOff s;
             s = delay_irq 500 (irq_in_delay i) s
         in if eventFlag s then (emit CancelGesture s)\<lparr>eventFlag := False\<rparr> else s)
      else if eventID \<noteq> GES_NONE then
        (let cancelEvent = handled i;
             s = emit (OnUserEvent (scr_id (currentScreen s)) eventID) s
         in if \<not> cancelEvent then
              (if eventID = GES_CNTRCLOCKWISE then enter_setup cfg i s
               else if eventID = GES_CLOCKWISE then rotate_screen cfg i s
               else swipe_screen cfg i eventID s)
            else s)
      else s)"

text \<open>
  The condition of line 385, with the grouping C gives it: \<^verbatim>\<open>?:\<close> binds weaker than
  \<^verbatim>\<open>&&\<close>, so the whole conjunction is the first operand of \<^verbatim>\<open>? 1 : 0\<close>. The product is
  taken in 32 bits, as the comparison with an \<^verbatim>\<open>unsigned long\<close> does.
\<close>

definition idle_timeout_cond :: "config \<Rightarrow> state \<Rightarrow> int" where
  "idle_timeout_cond cfg s =
     (if isDisplayOn s
         \<and> clock s - eventTime s > BACKLIGHT_TIMEOUT cfg * (1 + (if getSoC s > 95 then 1 else 0))
      then 1 else 0)"

text \<open>Lines 176 to 392.\<close>

definition event_processing :: "config \<Rightarrow> tick_in \<Rightarrow> state \<Rightarrow> state" where
  "event_processing cfg i s =
     (if eventFlag s then
        (if clock s - lastEventProcessing s > 1000 then
           (let s = s\<lparr>lastEventProcessing := clock s\<rparr>;
                s = s\<lparr>eventFlag := False\<rparr>
            in case getUserEvent (raw_gesture i) s of
                 (eventID, s) \<Rightarrow> dispatch_event cfg i eventID s)
         else s)
      else
        (if idle_timeout_cond cfg s \<noteq> 0 then displayOff s else s))"

text \<open>Lines 395 to 408.\<close>

definition render :: "config \<Rightarrow> state \<Rightarrow> state" where
  "render cfg s =
     (if isDisplayOn s \<or> getRefreshWithScreenOff cfg (scr_id (currentScreen s)) then
        (if clock s - lastUpdate (currentScreen s)
              \<ge> getRefreshPeriod cfg (scr_id (currentScreen s)) - 50 then
           (let s = drawBar_unless_full cfg False s;
                s = s\<lparr>currentScreen := (currentScreen s)\<lparr>lastUpdate := clock s\<rparr>\<rparr>
            in emit (Update (scr_id (currentScreen s))) s)
         else s)
      else s)"

text \<open>
  The state of a tick after the battery averaging (its \<open>getVolt\<close> is the averaged voltage
  the low-battery check of this tick sees), and the state in which its event processing
  starts.
\<close>

definition after_averaging :: "config \<Rightarrow> tick_in \<Rightarrow> state \<Rightarrow> state" where
  "after_averaging cfg i s = battery_averaging cfg i (retry_init cfg i (s\<lparr>clock := t_now i\<rparr>))"

definition before_events :: "config \<Rightarrow> tick_in \<Rightarrow> state \<Rightarrow> state" where
  "before_events cfg i s = lowbatt_check cfg (after_averaging cfg i s)"

definition service :: "config \<Rightarrow> tick_in \<Rightarrow> state \<Rightarrow> state" where
  "service cfg i s =
     (let s = before_events cfg i s
      in if restarted s then s else render cfg (event_processing cfg i s))"

subsection \<open>Runs\<close>

datatype step = Tick tick_in | Interrupt millis

fun run :: "config \<Rightarrow> step list \<Rightarrow> state \<Rightarrow> state" where
  "run cfg [] s = s"
| "run cfg (Tick i # r) s = run cfg r (service cfg i s)"
| "run cfg (Interrupt t # r) s = run cfg r (onGesture t s)"

section \<open>Notions used by the properties\<close>

subsection \<open>Recorded screen and disable calls\<close>

text \<open>
  The recorded calls that concern the life of a screen object, the calls that disable a
  sibling task, and what a state has recorded of them.
\<close>

fun is_lifecycle :: "action \<Rightarrow> bool" where
  "is_lifecycle (Deactivate x) = True"
| "is_lifecycle (Destroy x) = True"
| "is_lifecycle (Construct x) = True"
| "is_lifecycle (Activate x) = True"
| "is_lifecycle a = False"

fun is_disable :: "action \<Rightarrow> bool" where
  "is_disable (Disable t) = True"
| "is_disable a = False"

definition is_transition :: "action \<Rightarrow> bool" where
  "is_transition a = (is_lifecycle a \<or> is_disable a)"

definition transitions :: "state \<Rightarrow> action list" where
  "transitions s = filter is_transition (trace s)"

definition lifecycle_calls :: "state \<Rightarrow> action list" where
  "lifecycle_calls s = filter is_lifecycle (trace s)"

text \<open>
  What a piece of a tick may do to the live screen: nothing, a rotation (the same object
  is deactivated and activated again), a replacement, or the forced entry of the
  low-battery screen with its disable calls.
\<close>

definition no_change :: "state \<Rightarrow> state \<Rightarrow> bool" where
  "no_change s s' =
     (transitions s' = transitions s \<and> currentScreenID s' = currentScreenID s
      \<and> scr_id (currentScreen s') = scr_id (currentScreen s))"

definition rotated :: "state \<Rightarrow> state \<Rightarrow> bool" where
  "rotated s s' =
     (transitions s' = transitions s @
        [Deactivate (scr_id (currentScreen s)), Activate (scr_id (currentScreen s))]
      \<and> currentScreenID s' = currentScreenID s
      \<and> scr_id (currentScreen s') = scr_id (currentScreen s))"

definition replaced :: "state \<Rightarrow> state \<Rightarrow> bool" where
  "replaced s s' =
     (transitions s' = transitions s @
        [Deactivate (scr_id (currentScreen s)), Destroy (scr_id (currentScreen s)),
         Construct (scr_id (currentScreen s')), Activate (scr_id (currentScreen s'))]
      \<and> currentScreenID s' = scr_id (currentScreen s'))"

definition lowbatt_entered :: "config \<Rightarrow> state \<Rightarrow> state \<Rightarrow> bool" where
  "lowbatt_entered cfg s s' =
     (transitions s' = transitions s @
        [Deactivate (scr_id (currentScreen s)), Destroy (scr_id (currentScreen s)),
         Construct (LOWBATT_SCREEN cfg), Activate (LOWBATT_SCREEN cfg)]
        @ (if KILL_INSTALLED cfg then [] else map Disable siblings)
      \<and> currentScreenID s' = LOWBATT_SCREEN cfg
      \<and> scr_id (currentScreen s') = LOWBATT_SCREEN cfg)"

text \<open>
  The fields that the sensor re-initialisation and the battery averaging leave alone.
\<close>

definition ui_eq :: "state \<Rightarrow> state \<Rightarrow> bool" where
  "ui_eq s s' =
     (currentScreenID s' = currentScreenID s \<and> currentScreen s' = currentScreen s
      \<and> currentScreenRotation s' = currentScreenRotation s \<and> eventFlag s' = eventFlag s
      \<and> eventTime s' = eventTime s \<and> lastEventProcessing s' = lastEventProcessing s
      \<and> isDisplayOn s' = isDisplayOn s \<and> displayInitialized s' = displayInitialized s
      \<and> restarted s' = restarted s)"

subsection \<open>The screen slot\<close>

text \<open>
  A monitor of the single screen slot: \<open>Held c a\<close> when the screen \<open>c\<close> is allocated
  (\<open>a\<close>: activated), \<open>Empty\<close> after its destruction. A call that does not fit the slot
  (a construction while a screen is allocated, a destruction of an active screen, an
  activation of an active screen, ...) makes the run \<open>None\<close>; calls that are not
  life-cycle calls are skipped.
\<close>

datatype slot = Empty | Held int bool

fun slot_step :: "slot \<Rightarrow> action \<Rightarrow> slot option" where
  "slot_step Empty (Construct n) = Some (Held n False)"
| "slot_step (Held c False) (Activate n) = (if n = c then Some (Held c True) else None)"
| "slot_step (Held c True) (Deactivate n) = (if n = c then Some (Held c False) else None)"
| "slot_step (Held c False) (Destroy n) = (if n = c then Some Empty else None)"
| "slot_step q a = (if is_lifecycle a then None else Some q)"

fun slot_run :: "slot \<Rightarrow> action list \<Rightarrow> slot option" where
  "slot_run q [] = Some q"
| "slot_run q (a # as) = (case slot_step q a of None \<Rightarrow> None | Some q' \<Rightarrow> slot_run q' as)"

subsection \<open>Low-battery runs and gesture reads\<close>

text \<open>
  A run in which every tick sees an averaged voltage at or below \<^verbatim>\<open>VOLT_LOW\<close>, and
  whether a run has a tick.
\<close>

fun sees_low_throughout :: "config \<Rightarrow> step list \<Rightarrow> state \<Rightarrow> bool" where
  "sees_low_throughout cfg [] s = True"
| "sees_low_throughout cfg (Tick i # r) s =
     (getVolt (after_averaging cfg i s) \<le> VOLT_LOW cfg
      \<and> sees_low_throughout cfg r (service cfg i s))"
| "sees_low_throughout cfg (Interrupt t # r) s = sees_low_throughout cfg r (onGesture t s)"

fun has_tick :: "step list \<Rightarrow> bool" where
  "has_tick [] = False"
| "has_tick (Tick i # r) = True"
| "has_tick (Interrupt t # r) = has_tick r"

text \<open>
  The number of writes of the backlight pin recorded so far (\<open>True\<close>: high, \<open>False\<close>:
  low), the number of gesture reads recorded so far, and whether a tick reads one: it
  does not restart, the latch is set and more than 1000 ms have passed since the last
  read.
\<close>

definition backlight_calls :: "bool \<Rightarrow> state \<Rightarrow> nat" where
  "backlight_calls b s = count_list (trace s) (Backlight b)"

definition reads :: "state \<Rightarrow> nat" where
  "reads s = count_list (trace s) ReadGesture"

definition honoured :: "config \<Rightarrow> tick_in \<Rightarrow> state \<Rightarrow> bool" where
  "honoured cfg i s =
     (\<not> restarted (before_events cfg i s) \<and> eventFlag s
      \<and> 1000 < clock (before_events cfg i s) - lastEventProcessing s)"

subsection \<open>Sample configurations, states and inputs\<close>

text \<open>
  Five screens, the low-battery screen 0, a battery between 3.6 V and 4.2 V, a build that
  disables the sibling tasks; screen 2 shown, display on, nothing pending; a tick at
  5000 ms.
\<close>

definition demo_cfg :: config where
  "demo_cfg = \<lparr>ENABLE_SENSORS = True, KILL_INSTALLED = False, VOLT_LOW = 36 / 10,
     VOLT_HIGH = 42 / 10, AVERAGING_WINDOW = 10, BACKLIGHT_TIMEOUT = 60000,
     LOWBATT_SCREEN = 0, SETUP_SCREEN = 5, getScreenCount = 5,
     isFullScreen = (\<lambda>sid. sid = 0), getRefreshPeriod = (\<lambda>sid. 1000),
     getRefreshWithScreenOff = (\<lambda>sid. False), newLastUpdate = 0\<rparr>"

definition demo_state :: state where
  "demo_state = \<lparr>initSuccess = True, lastBatteryAveraging = 0, avgVolt = [4],
     avgSOC = [], currentScreenID = 2, currentScreen = \<lparr>scr_id = 2, lastUpdate = 0\<rparr>,
     currentScreenRotation = 0, eventFlag = False, eventTime = 0,
     lastEventProcessing = 0, isDisplayOn = True, displayInitialized = True,
     clock = 0, restarted = False, trace = []\<rparr>"

definition demo_in :: tick_in where
  "demo_in = \<lparr>t_now = 5000, gesture_begin = (\<lambda>k. 0), vcell = 4,
     raw_gesture = GES_NONE, handled = False, irq_in_delay = None\<rparr>"

text \<open>
  The same configuration built with \<^verbatim>\<open>KILL_INSTALLED\<close>; a tick that reads a cell voltage
  of 3 V; a run of two such ticks with an interrupt between them.
\<close>

definition kill_cfg :: config where
  "kill_cfg = demo_cfg\<lparr>KILL_INSTALLED := True\<rparr>"

definition low_in :: tick_in where
  "low_in = \<lparr>t_now = 20000, gesture_begin = (\<lambda>k. 0), vcell = 3,
     raw_gesture = GES_NONE, handled = False, irq_in_delay = None\<rparr>"

definition low_run :: "step list" where
  "low_run = [Tick low_in, Interrupt 21000, Tick (low_in\<lparr>t_now := 31000, raw_gesture := GES_DOWN\<rparr>)]"

text \<open>
  An interrupt is pending; the same, 500 ms after the last read; the low-battery screen
  is shown with an event pending; the display is rotated; screen 2 was constructed and
  activated and an event is pending.
\<close>

definition pending_state :: state where
  "pending_state = onGesture 4000 demo_state"

definition recent_state :: state where
  "recent_state = pending_state\<lparr>lastEventProcessing := 4500\<rparr>"

definition lowbatt_state :: state where
  "lowbatt_state = demo_state\<lparr>avgVolt := [3], currentScreenID := 0,
     currentScreen := \<lparr>scr_id = 0, lastUpdate = 0\<rparr>, eventFlag := True, eventTime := 4000,
     trace := [Construct 0, Activate 0]\<rparr>"

definition rotated_state :: state where
  "rotated_state = demo_state\<lparr>currentScreenRotation := 2\<rparr>"

definition shown_state :: state where
  "shown_state = demo_state\<lparr>eventFlag := True, eventTime := 4000,
     trace := [Construct 2, Activate 2]\<rparr>"

text \<open>
  The battery nearly full and half full, and a tick at time \<open>t\<close> that reads the cell
  voltage \<open>v\<close>.
\<close>

definition charged_state :: state where
  "charged_state = demo_state\<lparr>avgVolt := [42 / 10], avgSOC := [98]\<rparr>"

definition discharged_state :: state where
  "discharged_state = demo_state\<lparr>avgVolt := [39 / 10], avgSOC := [50]\<rparr>"

definition idle_in :: "millis \<Rightarrow> real \<Rightarrow> tick_in" where
  "idle_in t v = demo_in\<lparr>t_now := t, vcell := v\<rparr>"

text \<open>
  The low-battery screen is shown with the display on, nothing is pending, and the
  battery has been recharged: the averaged voltage is above the midpoint of 3.9 V.
\<close>

definition recharged_state :: state where
  "recharged_state = charged_state\<lparr>currentScreenID := 0,
     currentScreen := \<lparr>scr_id = 0, lastUpdate = 0\<rparr>\<rparr>"

section \<open>Lemmas\<close>

lemma initGesture_from_ui_eq: "ui_eq s (snd (initGesture_from k j b s))"
proof (induction k arbitrary: j s)
  case 0
  show ?case by (simp add: ui_eq_def)
next
  case (Suc k)
  have "ui_eq (delay 2000 (emit ErrLog (emit GestureBegin s)))
          (snd (initGesture_from k (Suc j) b (delay 2000 (emit ErrLog (emit GestureBegin s)))))"
    by (rule Suc.IH)
  then show ?case
    by (simp add: ui_eq_def Let_def emit_def delay_def)
qed

lemma initGesture_from_trace:
  "\<exists>X. trace (snd (initGesture_from k j b s)) = trace s @ X
       \<and> set X \<subseteq> {GestureBegin, ErrLog, Delay 2000}"
proof (induction k arbitrary: j s)
  case 0
  show ?case by simp
next
  case (Suc k)
  show ?case
  proof (cases "b j = 0")
    case True
    then show ?thesis by (simp add: emit_def)
  next
    case False
    let ?s2 = "delay 2000 (emit ErrLog (emit GestureBegin s))"
    obtain X where X: "trace (snd (initGesture_from k (Suc j) b ?s2)) = trace ?s2 @ X"
      "set X \<subseteq> {GestureBegin, ErrLog, Delay 2000}"
      using Suc.IH [of "Suc j" ?s2] by blast
    have "trace (snd (initGesture_from (Suc k) j b s)) = trace s @ ([GestureBegin, ErrLog, Delay 2000] @ X)"
      using False X(1) by (simp add: Let_def emit_def delay_def)
    moreover have "set ([GestureBegin, ErrLog, Delay 2000] @ X) \<subseteq> {GestureBegin, ErrLog, Delay 2000}"
      using X(2) by auto
    ultimately show ?thesis by blast
  qed
qed

lemma retry_init_ui_eq: "ui_eq s (retry_init cfg i s)"
proof (cases "ENABLE_SENSORS cfg \<and> \<not> initSuccess s")
  case True
  have "ui_eq (emit ErrLog s) (snd (initGesture_from 3 0 (gesture_begin i) (emit ErrLog s)))"
    by (rule initGesture_from_ui_eq)
  then show ?thesis
    using True by (simp add: retry_init_def initGesture_def ui_eq_def emit_def case_prod_beta)
next
  case False
  then show ?thesis by (auto simp: retry_init_def ui_eq_def)
qed

lemma retry_init_trace:
  "\<exists>X. trace (retry_init cfg i s) = trace s @ X
       \<and> set X \<subseteq> {GestureBegin, ErrLog, Delay 2000}"
proof (cases "ENABLE_SENSORS cfg \<and> \<not> initSuccess s")
  case True
  obtain X where X: "trace (snd (initGesture_from 3 0 (gesture_begin i) (emit ErrLog s)))
      = trace (emit ErrLog s) @ X" "set X \<subseteq> {GestureBegin, ErrLog, Delay 2000}"
    using initGesture_from_trace by blast
  have "trace (retry_init cfg i s) = trace s @ (ErrLog # X)"
    using True X(1) by (simp add: retry_init_def initGesture_def emit_def case_prod_beta)
  moreover have "set (ErrLog # X) \<subseteq> {GestureBegin, ErrLog, Delay 2000}"
    using X(2) by auto
  ultimately show ?thesis by blast
next
  case False
  then have "trace (retry_init cfg i s) = trace s @ []" by (auto simp: retry_init_def)
  then show ?thesis by (metis empty_set empty_subsetI)
qed

lemma battery_averaging_ui_eq: "ui_eq s (battery_averaging cfg i s)"
  by (simp add: battery_averaging_def ui_eq_def emit_def Let_def)

lemma battery_averaging_trace:
  "\<exists>X. trace (battery_averaging cfg i s) = trace s @ X \<and> set X \<subseteq> {ReadVCell}"
proof (cases "sint (lastBatteryAveraging s + 10000) < sint (clock s)")
  case True
  then have "trace (battery_averaging cfg i s) = trace s @ [ReadVCell]"
    by (simp add: battery_averaging_def emit_def Let_def)
  then show ?thesis by auto
next
  case False
  then have "trace (battery_averaging cfg i s) = trace s @ []"
    by (simp add: battery_averaging_def Let_def)
  then show ?thesis by (metis empty_set empty_subsetI)
qed

lemma after_averaging_ui_eq: "ui_eq s (after_averaging cfg i s)"
  using retry_init_ui_eq [of "s\<lparr>clock := t_now i\<rparr>" cfg i]
    battery_averaging_ui_eq [of "retry_init cfg i (s\<lparr>clock := t_now i\<rparr>)" cfg i]
  by (simp add: after_averaging_def ui_eq_def)

lemma after_averaging_trace:
  "\<exists>X. trace (after_averaging cfg i s) = trace s @ X
       \<and> set X \<subseteq> {GestureBegin, ErrLog, Delay 2000, ReadVCell}"
proof -
  let ?s1 = "retry_init cfg i (s\<lparr>clock := t_now i\<rparr>)"
  obtain X where X: "trace ?s1 = trace s @ X" "set X \<subseteq> {GestureBegin, ErrLog, Delay 2000}"
    using retry_init_trace [of cfg i "s\<lparr>clock := t_now i\<rparr>"] by auto
  obtain Y where Y: "trace (battery_averaging cfg i ?s1) = trace ?s1 @ Y" "set Y \<subseteq> {ReadVCell}"
    using battery_averaging_trace by blast
  have "trace (after_averaging cfg i s) = trace s @ (X @ Y)"
    using X(1) Y(1) by (simp add: after_averaging_def)
  moreover have "set (X @ Y) \<subseteq> {GestureBegin, ErrLog, Delay 2000, ReadVCell}"
    using X(2) Y(2) by auto
  ultimately show ?thesis by blast
qed

lemma transitions_emit [simp]:
  "transitions (emit a s) = transitions s @ (if is_transition a then [a] else [])"
  by (simp add: transitions_def emit_def)

lemma transitions_upd [simp]:
  "transitions (s\<lparr>clock := c\<rparr>) = transitions s"
  "transitions (s\<lparr>eventFlag := f\<rparr>) = transitions s"
  "transitions (s\<lparr>eventTime := t1\<rparr>) = transitions s"
  "transitions (s\<lparr>lastEventProcessing := t\<rparr>) = transitions s"
  "transitions (s\<lparr>isDisplayOn := on\<rparr>) = transitions s"
  "transitions (s\<lparr>displayInitialized := d\<rparr>) = transitions s"
  "transitions (s\<lparr>currentScreenID := n\<rparr>) = transitions s"
  "transitions (s\<lparr>currentScreen := sc\<rparr>) = transitions s"
  "transitions (s\<lparr>currentScreenRotation := rot\<rparr>) = transitions s"
  "transitions (s\<lparr>restarted := r\<rparr>) = transitions s"
  by (simp_all add: transitions_def)

lemma emit_fields [simp]:
  "currentScreenID (emit a s) = currentScreenID s"
  "currentScreen (emit a s) = currentScreen s"
  "currentScreenRotation (emit a s) = currentScreenRotation s"
  "eventFlag (emit a s) = eventFlag s"
  "eventTime (emit a s) = eventTime s"
  "lastEventProcessing (emit a s) = lastEventProcessing s"
  "isDisplayOn (emit a s) = isDisplayOn s"
  "displayInitialized (emit a s) = displayInitialized s"
  "clock (emit a s) = clock s"
  "restarted (emit a s) = restarted s"
  "avgSOC (emit a s) = avgSOC s"
  "avgVolt (emit a s) = avgVolt s"
  by (simp_all add: emit_def)

lemmas step_defs = delay_def onGesture_def delay_irq_def initDisplay_def
  displayOn_def displayOff_def drawBar_unless_full_def createScreen_def is_transition_def

lemma enter_setup_replaced: "replaced s (enter_setup cfg i s)"
  by (simp add: enter_setup_def replaced_def step_defs Let_def split: option.splits)

lemma rotate_screen_rotated: "rotated s (rotate_screen cfg i s)"
  by (simp add: rotate_screen_def rotated_def step_defs Let_def split: option.splits)

lemma swipe_screen_cases:
  "no_change s (swipe_screen cfg i e s) \<or> replaced s (swipe_screen cfg i e s)"
  by (simp add: swipe_screen_def replaced_def no_change_def step_defs Let_def split: option.splits)

lemma after_emit:
  "\<not> is_transition a \<Longrightarrow> no_change (emit a s) s' = no_change s s'"
  "\<not> is_transition a \<Longrightarrow> rotated (emit a s) s' = rotated s s'"
  "\<not> is_transition a \<Longrightarrow> replaced (emit a s) s' = replaced s s'"
  by (simp_all add: no_change_def rotated_def replaced_def)

lemma no_change_refl: "no_change s s"
  by (simp add: no_change_def)

lemma dispatch_event_cases:
  "no_change s (dispatch_event cfg i e s) \<or> rotated s (dispatch_event cfg i e s)
     \<or> replaced s (dispatch_event cfg i e s)"
proof -
  let ?s1 = "emit (OnUserEvent (scr_id (currentScreen s)) e) s"
  have a: "no_change s (displayOn (delay_irq 10 (irq_in_delay i) (emit LcdInit s)))"
    by (simp add: no_change_def step_defs split: option.splits)
  have b: "no_change s (let s = displayOff s; s = delay_irq 500 (irq_in_delay i) s
         in if eventFlag s then (emit CancelGesture s)\<lparr>eventFlag := False\<rparr> else s)"
    by (simp add: no_change_def step_defs Let_def split: option.splits)
  have c: "no_change s ?s1"
    by (simp add: no_change_def is_transition_def)
  have d: "replaced s (enter_setup cfg i ?s1)"
    using enter_setup_replaced [of ?s1 cfg i] by (simp add: after_emit is_transition_def)
  have e: "rotated s (rotate_screen cfg i ?s1)"
    using rotate_screen_rotated [of ?s1 cfg i] by (simp add: after_emit is_transition_def)
  have f: "no_change s (swipe_screen cfg i e ?s1) \<or> replaced s (swipe_screen cfg i e ?s1)"
    using swipe_screen_cases [of ?s1 cfg i e] by (simp add: after_emit is_transition_def)
  show ?thesis
    unfolding dispatch_event_def Let_def
    using a b c d e f no_change_refl [of s] by (auto simp: Let_def)
qed

lemma dispatch_event_lowbatt:
  "isDisplayOn s \<Longrightarrow> currentScreenID s = LOWBATT_SCREEN cfg \<Longrightarrow> dispatch_event cfg i e s = s"
  by (simp add: dispatch_event_def)

lemma dispatch_event_display_off:
  "\<not> isDisplayOn s \<Longrightarrow> no_change s (dispatch_event cfg i e s)"
  by (simp add: dispatch_event_def no_change_def step_defs split: option.splits)

lemma event_processing_cases:
  "no_change s (event_processing cfg i s) \<or> rotated s (event_processing cfg i s)
     \<or> replaced s (event_processing cfg i s)"
proof -
  let ?s1 = "emit ReadGesture (s\<lparr>lastEventProcessing := clock s, eventFlag := False\<rparr>)"
  let ?e = "remap_gesture (currentScreenRotation s) (raw_gesture i)"
  have a: "no_change s (displayOff s)"
    by (simp add: no_change_def step_defs)
  have b: "no_change s (dispatch_event cfg i ?e ?s1) \<or> rotated s (dispatch_event cfg i ?e ?s1)
     \<or> replaced s (dispatch_event cfg i ?e ?s1)"
    using dispatch_event_cases [of ?s1 cfg i ?e]
    by (simp add: no_change_def rotated_def replaced_def is_transition_def)
  show ?thesis
    unfolding event_processing_def
    using a b no_change_refl [of s] by (simp add: Let_def getUserEvent_def)
qed

lemma event_processing_lowbatt:
  assumes "currentScreenID s = LOWBATT_SCREEN cfg"
  shows "no_change s (event_processing cfg i s)"
proof -
  let ?s1 = "emit ReadGesture (s\<lparr>lastEventProcessing := clock s, eventFlag := False\<rparr>)"
  let ?e = "remap_gesture (currentScreenRotation s) (raw_gesture i)"
  have a: "no_change s (displayOff s)"
    by (simp add: no_change_def step_defs)
  have b: "no_change s (dispatch_event cfg i ?e ?s1)"
  proof (cases "isDisplayOn s")
    case True
    then have "dispatch_event cfg i ?e ?s1 = ?s1"
      using assms by (simp add: dispatch_event_lowbatt)
    then show ?thesis by (simp add: no_change_def is_transition_def)
  next
    case False
    then have "no_change ?s1 (dispatch_event cfg i ?e ?s1)"
      by (simp add: dispatch_event_display_off)
    then show ?thesis by (simp add: no_change_def is_transition_def)
  qed
  show ?thesis
    unfolding event_processing_def
    using a b no_change_refl [of s] by (simp add: Let_def getUserEvent_def)
qed

lemma render_no_change: "no_change s (render cfg s)"
  by (simp add: render_def no_change_def step_defs Let_def)

lemma render_fields:
  "isDisplayOn (render cfg s) = isDisplayOn s"
  "eventFlag (render cfg s) = eventFlag s"
  "eventTime (render cfg s) = eventTime s"
  "lastEventProcessing (render cfg s) = lastEventProcessing s"
  "currentScreenRotation (render cfg s) = currentScreenRotation s"
  "avgSOC (render cfg s) = avgSOC s"
  "avgVolt (render cfg s) = avgVolt s"
  "restarted (render cfg s) = restarted s"
  "clock (render cfg s) = clock s"
  by (simp_all add: render_def step_defs Let_def)

lemma filter_transition_disable:
  "filter is_transition (map Disable ts) = map Disable ts"
  by (induction ts) (simp_all add: is_transition_def)

lemma enter_lowbatt_entered: "lowbatt_entered cfg s (enter_lowbatt cfg s)"
  by (simp add: enter_lowbatt_def lowbatt_entered_def step_defs Let_def disable_siblings_def
      transitions_def filter_transition_disable emit_def)

lemma lowbatt_check_low:
  "getVolt s \<le> VOLT_LOW cfg \<Longrightarrow> currentScreenID s \<noteq> LOWBATT_SCREEN cfg \<Longrightarrow>
     lowbatt_check cfg s = enter_lowbatt cfg s"
  by (simp add: lowbatt_check_def)

lemma lowbatt_check_other:
  "\<not> (getVolt s \<le> VOLT_LOW cfg \<and> currentScreenID s \<noteq> LOWBATT_SCREEN cfg) \<Longrightarrow>
     no_change s (lowbatt_check cfg s)"
  by (auto simp: lowbatt_check_def no_change_def step_defs)

lemma after_averaging_no_change: "no_change s (after_averaging cfg i s)"
proof -
  obtain X where X: "trace (after_averaging cfg i s) = trace s @ X"
      "set X \<subseteq> {GestureBegin, ErrLog, Delay 2000, ReadVCell}"
    using after_averaging_trace by blast
  have "filter is_transition X = []"
    using X(2) by (auto simp: filter_empty_conv is_transition_def)
  then have "transitions (after_averaging cfg i s) = transitions s"
    using X(1) by (simp add: transitions_def)
  then show ?thesis
    using after_averaging_ui_eq [of s cfg i] by (simp add: no_change_def ui_eq_def)
qed

lemma no_change_then:
  "no_change s a \<Longrightarrow> no_change a b \<Longrightarrow> no_change s b"
  "no_change s a \<Longrightarrow> rotated a b \<Longrightarrow> rotated s b"
  "no_change s a \<Longrightarrow> replaced a b \<Longrightarrow> replaced s b"
  "no_change s a \<Longrightarrow> lowbatt_entered cfg a b \<Longrightarrow> lowbatt_entered cfg s b"
  by (simp_all add: no_change_def rotated_def replaced_def lowbatt_entered_def)

lemma then_no_change:
  "rotated s a \<Longrightarrow> no_change a b \<Longrightarrow> rotated s b"
  "replaced s a \<Longrightarrow> no_change a b \<Longrightarrow> replaced s b"
  "lowbatt_entered cfg s a \<Longrightarrow> no_change a b \<Longrightarrow> lowbatt_entered cfg s b"
  by (simp_all add: no_change_def rotated_def replaced_def lowbatt_entered_def)

lemma after_events_cases:
  "no_change s (render cfg (event_processing cfg i s))
   \<or> rotated s (render cfg (event_processing cfg i s))
   \<or> replaced s (render cfg (event_processing cfg i s))"
  using event_processing_cases [of s cfg i]
    render_no_change [of "event_processing cfg i s" cfg]
  by (blast intro: no_change_then(1) then_no_change)

text \<open>A tick that sees a low averaged voltage outside the low-battery screen.\<close>

lemma service_enters_lowbatt:
  assumes low: "getVolt (after_averaging cfg i s) \<le> VOLT_LOW cfg"
    and nlb: "currentScreenID s \<noteq> LOWBATT_SCREEN cfg"
  shows "lowbatt_entered cfg s (service cfg i s)"
proof -
  let ?a = "after_averaging cfg i s"
  let ?b = "before_events cfg i s"
  have nc: "no_change s ?a" by (rule after_averaging_no_change)
  then have "currentScreenID ?a \<noteq> LOWBATT_SCREEN cfg"
    using nlb by (simp add: no_change_def)
  then have p: "?b = enter_lowbatt cfg ?a"
    using low by (simp add: before_events_def lowbatt_check_low)
  have ent: "lowbatt_entered cfg s ?b"
    using nc enter_lowbatt_entered [of cfg ?a] p by (simp add: no_change_then(4))
  show ?thesis
  proof (cases "restarted ?b")
    case True
    then show ?thesis using ent by (simp add: service_def Let_def)
  next
    case False
    have "currentScreenID ?b = LOWBATT_SCREEN cfg"
      using ent by (simp add: lowbatt_entered_def)
    then have "no_change ?b (event_processing cfg i ?b)"
      by (rule event_processing_lowbatt)
    then have "no_change ?b (render cfg (event_processing cfg i ?b))"
      using render_no_change no_change_then(1) by blast
    then have "lowbatt_entered cfg s (render cfg (event_processing cfg i ?b))"
      using ent then_no_change(3) by blast
    then show ?thesis using False by (simp add: service_def Let_def)
  qed
qed

text \<open>A tick that starts in the low-battery screen.\<close>

lemma service_in_lowbatt:
  assumes lb: "currentScreenID s = LOWBATT_SCREEN cfg"
  shows "no_change s (service cfg i s)"
proof -
  let ?a = "after_averaging cfg i s"
  let ?b = "before_events cfg i s"
  have nc: "no_change s ?a" by (rule after_averaging_no_change)
  then have "currentScreenID ?a = LOWBATT_SCREEN cfg"
    using lb by (simp add: no_change_def)
  then have "no_change ?a ?b"
    by (simp add: before_events_def lowbatt_check_other)
  then have p: "no_change s ?b"
    using nc no_change_then(1) by blast
  show ?thesis
  proof (cases "restarted ?b")
    case True
    then show ?thesis using p by (simp add: service_def Let_def)
  next
    case False
    have "currentScreenID ?b = LOWBATT_SCREEN cfg"
      using p lb by (simp add: no_change_def)
    then have "no_change ?b (event_processing cfg i ?b)"
      by (rule event_processing_lowbatt)
    then have "no_change ?b (render cfg (event_processing cfg i ?b))"
      using render_no_change no_change_then(1) by blast
    then have "no_change s (render cfg (event_processing cfg i ?b))"
      using p no_change_then(1) by blast
    then show ?thesis using False by (simp add: service_def Let_def)
  qed
qed

text \<open>Every tick.\<close>

lemma service_cases:
  "no_change s (service cfg i s) \<or> rotated s (service cfg i s)
   \<or> replaced s (service cfg i s) \<or> lowbatt_entered cfg s (service cfg i s)"
proof (cases "getVolt (after_averaging cfg i s) \<le> VOLT_LOW cfg
              \<and> currentScreenID s \<noteq> LOWBATT_SCREEN cfg")
  case True
  then show ?thesis using service_enters_lowbatt by blast
next
  case False
  let ?a = "after_averaging cfg i s"
  let ?b = "before_events cfg i s"
  have nc: "no_change s ?a" by (rule after_averaging_no_change)
  then have "\<not> (getVolt ?a \<le> VOLT_LOW cfg \<and> currentScreenID ?a \<noteq> LOWBATT_SCREEN cfg)"
    using False by (simp add: no_change_def)
  then have "no_change ?a ?b"
    by (simp add: before_events_def lowbatt_check_other)
  then have p: "no_change s ?b"
    using nc no_change_then(1) by blast
  show ?thesis
  proof (cases "restarted ?b")
    case True
    then show ?thesis using p by (simp add: service_def Let_def)
  next
    case False
    have "no_change s (render cfg (event_processing cfg i ?b))
       \<or> rotated s (render cfg (event_processing cfg i ?b))
       \<or> replaced s (render cfg (event_processing cfg i ?b))"
      using after_events_cases [of ?b cfg i] p by (blast intro: no_change_then)
    then show ?thesis using False by (auto simp: service_def Let_def)
  qed
qed

lemma onGesture_no_change: "no_change s (onGesture t s)"
  by (simp add: no_change_def onGesture_def is_transition_def)

lemma run_in_lowbatt:
  "currentScreenID s = LOWBATT_SCREEN cfg \<Longrightarrow> no_change s (run cfg steps s)"
proof (induction steps arbitrary: s)
  case Nil
  show ?case by (simp add: no_change_refl)
next
  case (Cons a steps)
  show ?case
  proof (cases a)
    case (Tick i)
    have 1: "no_change s (service cfg i s)"
      using Cons.prems by (rule service_in_lowbatt)
    then have "currentScreenID (service cfg i s) = LOWBATT_SCREEN cfg"
      using Cons.prems by (simp add: no_change_def)
    then have "no_change (service cfg i s) (run cfg steps (service cfg i s))"
      by (rule Cons.IH)
    then show ?thesis using 1 Tick no_change_then(1) by auto
  next
    case (Interrupt t)
    have 1: "no_change s (onGesture t s)" by (rule onGesture_no_change)
    then have "currentScreenID (onGesture t s) = LOWBATT_SCREEN cfg"
      using Cons.prems by (simp add: no_change_def)
    then have "no_change (onGesture t s) (run cfg steps (onGesture t s))"
      by (rule Cons.IH)
    then show ?thesis using 1 Interrupt no_change_then(1) by auto
  qed
qed

lemma run_enters_lowbatt:
  "sees_low_throughout cfg steps s \<Longrightarrow> has_tick steps \<Longrightarrow>
   currentScreenID s \<noteq> LOWBATT_SCREEN cfg \<Longrightarrow> lowbatt_entered cfg s (run cfg steps s)"
proof (induction steps arbitrary: s)
  case Nil
  then show ?case by simp
next
  case (Cons a steps)
  show ?case
  proof (cases a)
    case (Tick i)
    have 1: "lowbatt_entered cfg s (service cfg i s)"
      using Cons.prems Tick by (simp add: service_enters_lowbatt)
    then have "currentScreenID (service cfg i s) = LOWBATT_SCREEN cfg"
      by (simp add: lowbatt_entered_def)
    then have "no_change (service cfg i s) (run cfg steps (service cfg i s))"
      by (rule run_in_lowbatt)
    then show ?thesis using 1 Tick then_no_change(3) by auto
  next
    case (Interrupt t)
    have 1: "no_change s (onGesture t s)" by (rule onGesture_no_change)
    then have "currentScreenID (onGesture t s) \<noteq> LOWBATT_SCREEN cfg"
      using Cons.prems by (simp add: no_change_def)
    then have "lowbatt_entered cfg (onGesture t s) (run cfg steps (onGesture t s))"
      using Cons.prems Interrupt Cons.IH by simp
    then show ?thesis using 1 Interrupt no_change_then(4) by auto
  qed
qed

lemmas eval_defs = demo_cfg_def demo_state_def demo_in_def kill_cfg_def low_in_def low_run_def
  service_def before_events_def after_averaging_def retry_init_def battery_averaging_def
  lowbatt_check_def enter_lowbatt_def disable_siblings_def siblings_def soc_sample_def
  event_processing_def idle_timeout_cond_def getUserEvent_def dispatch_event_def
  enter_setup_def rotate_screen_def swipe_screen_def handleSwipe_def render_def
  getVolt_def getSoC_def mean_def push_avg_def initGesture_def
  emit_def delay_def onGesture_def delay_irq_def initDisplay_def
  displayOn_def displayOff_def drawBar_unless_full_def createScreen_def Let_def

lemma reads_emit [simp]: "reads (emit a s) = reads s + (if a = ReadGesture then 1 else 0)"
  by (simp add: reads_def emit_def)

lemma reads_upd [simp]:
  "reads (s\<lparr>clock := c\<rparr>) = reads s"
  "reads (s\<lparr>eventFlag := f\<rparr>) = reads s"
  "reads (s\<lparr>eventTime := t1\<rparr>) = reads s"
  "reads (s\<lparr>lastEventProcessing := t\<rparr>) = reads s"
  "reads (s\<lparr>isDisplayOn := on\<rparr>) = reads s"
  "reads (s\<lparr>displayInitialized := d\<rparr>) = reads s"
  "reads (s\<lparr>currentScreenID := n\<rparr>) = reads s"
  "reads (s\<lparr>currentScreen := sc\<rparr>) = reads s"
  "reads (s\<lparr>currentScreenRotation := rot\<rparr>) = reads s"
  "reads (s\<lparr>restarted := r\<rparr>) = reads s"
  by (simp_all add: reads_def)

lemma enter_setup_fields:
  "reads (enter_setup cfg i s) = reads s"
  "lastEventProcessing (enter_setup cfg i s) = lastEventProcessing s"
  "avgSOC (enter_setup cfg i s) = avgSOC s"
  "irq_in_delay i = None \<Longrightarrow> eventFlag (enter_setup cfg i s) = eventFlag s"
  by (simp_all add: enter_setup_def step_defs Let_def split: option.splits)

lemma rotate_screen_fields:
  "reads (rotate_screen cfg i s) = reads s"
  "lastEventProcessing (rotate_screen cfg i s) = lastEventProcessing s"
  "avgSOC (rotate_screen cfg i s) = avgSOC s"
  "irq_in_delay i = None \<Longrightarrow> eventFlag (rotate_screen cfg i s) = eventFlag s"
  by (simp_all add: rotate_screen_def step_defs Let_def split: option.splits)

lemma swipe_screen_fields:
  "reads (swipe_screen cfg i e s) = reads s"
  "lastEventProcessing (swipe_screen cfg i e s) = lastEventProcessing s"
  "avgSOC (swipe_screen cfg i e s) = avgSOC s"
  "irq_in_delay i = None \<Longrightarrow> eventFlag (swipe_screen cfg i e s) = eventFlag s"
  by (simp_all add: swipe_screen_def step_defs Let_def split: option.splits)

lemmas branch_fields = enter_setup_fields rotate_screen_fields swipe_screen_fields

lemma dispatch_event_reads: "reads (dispatch_event cfg i e s) = reads s"
  by (simp add: dispatch_event_def branch_fields step_defs Let_def split: option.splits)

lemma dispatch_event_fields:
  "lastEventProcessing (dispatch_event cfg i e s) = lastEventProcessing s"
  "irq_in_delay i = None \<Longrightarrow> eventFlag s = False \<Longrightarrow> eventFlag (dispatch_event cfg i e s) = False"
  "avgSOC (dispatch_event cfg i e s) = avgSOC s"
  by (simp_all add: dispatch_event_def branch_fields step_defs Let_def split: option.splits)

lemma event_processing_reads:
  "reads (event_processing cfg i s) =
     reads s + (if eventFlag s \<and> 1000 < clock s - lastEventProcessing s then 1 else 0)"
  by (simp add: event_processing_def getUserEvent_def dispatch_event_reads step_defs Let_def)

lemma event_processing_avgSOC: "avgSOC (event_processing cfg i s) = avgSOC s"
  by (simp add: event_processing_def getUserEvent_def dispatch_event_fields step_defs Let_def)

lemma event_processing_honoured:
  "eventFlag s \<Longrightarrow> 1000 < clock s - lastEventProcessing s \<Longrightarrow>
     lastEventProcessing (event_processing cfg i s) = clock s
     \<and> (irq_in_delay i = None \<longrightarrow> \<not> eventFlag (event_processing cfg i s))"
  by (simp add: event_processing_def getUserEvent_def dispatch_event_fields step_defs Let_def)

lemma event_processing_deferred:
  "eventFlag s \<Longrightarrow> \<not> 1000 < clock s - lastEventProcessing s \<Longrightarrow>
     event_processing cfg i s = s"
  by (simp add: event_processing_def)

lemma event_processing_idle:
  "\<not> eventFlag s \<Longrightarrow>
     event_processing cfg i s =
       (if isDisplayOn s
           \<and> (if 95 < getSoC s then 2 * BACKLIGHT_TIMEOUT cfg else BACKLIGHT_TIMEOUT cfg)
               < clock s - eventTime s
        then displayOff s else s)"
  by (auto simp: event_processing_def idle_timeout_cond_def mult.commute)

lemma lowbatt_check_fields:
  "eventFlag (lowbatt_check cfg s) = eventFlag s"
  "eventTime (lowbatt_check cfg s) = eventTime s"
  "lastEventProcessing (lowbatt_check cfg s) = lastEventProcessing s"
  "isDisplayOn (lowbatt_check cfg s) = isDisplayOn s"
  "currentScreenRotation (lowbatt_check cfg s) = currentScreenRotation s"
  "avgSOC (lowbatt_check cfg s) = avgSOC s"
  "avgVolt (lowbatt_check cfg s) = avgVolt s"
  "reads (lowbatt_check cfg s) = reads s"
  by (simp_all add: lowbatt_check_def enter_lowbatt_def disable_siblings_def step_defs Let_def
      reads_def emit_def siblings_def)

lemma before_events_fields:
  "eventFlag (before_events cfg i s) = eventFlag s"
  "eventTime (before_events cfg i s) = eventTime s"
  "lastEventProcessing (before_events cfg i s) = lastEventProcessing s"
  "isDisplayOn (before_events cfg i s) = isDisplayOn s"
  "currentScreenRotation (before_events cfg i s) = currentScreenRotation s"
  using after_averaging_ui_eq [of s cfg i]
  by (simp_all add: before_events_def lowbatt_check_fields ui_eq_def)

lemma before_events_reads: "reads (before_events cfg i s) = reads s"
proof -
  obtain X where X: "trace (after_averaging cfg i s) = trace s @ X"
      "set X \<subseteq> {GestureBegin, ErrLog, Delay 2000, ReadVCell}"
    using after_averaging_trace by blast
  have "count_list X ReadGesture = 0"
    using X(2) by (auto simp: count_list_0_iff)
  then have "reads (after_averaging cfg i s) = reads s"
    using X(1) by (simp add: reads_def)
  then show ?thesis by (simp add: before_events_def lowbatt_check_fields)
qed

lemma render_reads: "reads (render cfg s) = reads s"
  by (simp add: render_def step_defs Let_def)

lemma service_reads:
  "reads (service cfg i s) = reads s + (if honoured cfg i s then 1 else 0)"
  by (simp add: service_def Let_def render_reads event_processing_reads before_events_reads
      before_events_fields honoured_def)

lemma onGesture_twice: "onGesture t2 (onGesture t1 s) = onGesture t1 s"
  by (simp add: onGesture_def emit_def)

lemma onGesture_reads: "reads (onGesture t s) = reads s"
  by (simp add: onGesture_def)

lemma slot_step_other: "\<not> is_lifecycle a \<Longrightarrow> slot_step q a = Some q"
  by (cases "(q, a)" rule: slot_step.cases) simp_all

lemma slot_run_filter: "slot_run q (filter is_lifecycle xs) = slot_run q xs"
  by (induction xs arbitrary: q) (auto simp: slot_step_other split: option.splits)

lemma slot_run_append:
  "slot_run q (xs @ ys) = (case slot_run q xs of None \<Rightarrow> None | Some q' \<Rightarrow> slot_run q' ys)"
  by (induction xs arbitrary: q) (simp_all split: option.splits)

lemma lifecycle_of_transitions:
  "lifecycle_calls s = filter is_lifecycle (transitions s)"
  by (auto simp: lifecycle_calls_def transitions_def is_transition_def intro: filter_cong)

lemma filter_lifecycle_disable: "filter is_lifecycle (map Disable ts) = []"
  by (induction ts) simp_all

lemma no_change_lifecycle:
  "no_change s s' \<Longrightarrow> lifecycle_calls s' = lifecycle_calls s
     \<and> scr_id (currentScreen s') = scr_id (currentScreen s)"
  by (simp add: no_change_def lifecycle_of_transitions)

lemma rotated_lifecycle:
  "rotated s s' \<Longrightarrow> lifecycle_calls s' = lifecycle_calls s @
       [Deactivate (scr_id (currentScreen s)), Activate (scr_id (currentScreen s))]
     \<and> scr_id (currentScreen s') = scr_id (currentScreen s)"
  by (simp add: rotated_def lifecycle_of_transitions)

lemma replaced_lifecycle:
  "replaced s s' \<Longrightarrow> lifecycle_calls s' = lifecycle_calls s @
       [Deactivate (scr_id (currentScreen s)), Destroy (scr_id (currentScreen s)),
        Construct (scr_id (currentScreen s')), Activate (scr_id (currentScreen s'))]"
  by (simp add: replaced_def lifecycle_of_transitions)

lemma lowbatt_entered_lifecycle:
  "lowbatt_entered cfg s s' \<Longrightarrow> lifecycle_calls s' = lifecycle_calls s @
       [Deactivate (scr_id (currentScreen s)), Destroy (scr_id (currentScreen s)),
        Construct (scr_id (currentScreen s')), Activate (scr_id (currentScreen s'))]"
  by (simp add: lowbatt_entered_def lifecycle_of_transitions filter_lifecycle_disable)

lemma service_lifecycle_cases:
  "(lifecycle_calls (service cfg i s) = lifecycle_calls s
      \<and> scr_id (currentScreen (service cfg i s)) = scr_id (currentScreen s))
   \<or> (lifecycle_calls (service cfg i s) = lifecycle_calls s @
         [Deactivate (scr_id (currentScreen s)), Activate (scr_id (currentScreen s))]
      \<and> scr_id (currentScreen (service cfg i s)) = scr_id (currentScreen s))
   \<or> lifecycle_calls (service cfg i s) = lifecycle_calls s @
         [Deactivate (scr_id (currentScreen s)), Destroy (scr_id (currentScreen s)),
          Construct (scr_id (currentScreen (service cfg i s))),
          Activate (scr_id (currentScreen (service cfg i s)))]"
  using service_cases [of s cfg i] no_change_lifecycle rotated_lifecycle replaced_lifecycle
    lowbatt_entered_lifecycle by blast

lemma service_slot:
  assumes "slot_run q (trace s) = Some (Held (scr_id (currentScreen s)) True)"
  shows "slot_run q (trace (service cfg i s))
           = Some (Held (scr_id (currentScreen (service cfg i s))) True)"
proof -
  have a: "slot_run q (lifecycle_calls s) = Some (Held (scr_id (currentScreen s)) True)"
    using assms by (simp add: lifecycle_calls_def slot_run_filter)
  have "slot_run q (lifecycle_calls (service cfg i s))
           = Some (Held (scr_id (currentScreen (service cfg i s))) True)"
    using service_lifecycle_cases [of cfg i s] a by (auto simp: slot_run_append)
  then show ?thesis by (simp add: lifecycle_calls_def slot_run_filter)
qed

lemma count_disable_siblings: "count_list (map Disable siblings) (Disable t) = 1"
  by (cases t) (simp_all add: siblings_def)

lemma dispatch_event_forward:
  "isDisplayOn s \<Longrightarrow> currentScreenID s \<noteq> LOWBATT_SCREEN cfg \<Longrightarrow>
     \<not> isDisplayOn (dispatch_event cfg i GES_FORWARD s)"
  by (simp add: dispatch_event_def step_defs Let_def split: option.splits)

lemma initGesture_from_avg:
  "avgSOC (snd (initGesture_from k j b s)) = avgSOC s
   \<and> avgVolt (snd (initGesture_from k j b s)) = avgVolt s"
proof (induction k arbitrary: j s)
  case 0
  show ?case by simp
next
  case (Suc k)
  have "avgSOC (snd (initGesture_from k (Suc j) b (delay 2000 (emit ErrLog (emit GestureBegin s)))))
      = avgSOC (delay 2000 (emit ErrLog (emit GestureBegin s)))
    \<and> avgVolt (snd (initGesture_from k (Suc j) b (delay 2000 (emit ErrLog (emit GestureBegin s)))))
      = avgVolt (delay 2000 (emit ErrLog (emit GestureBegin s)))"
    by (rule Suc.IH)
  then show ?case
    by (simp add: Let_def emit_def delay_def)
qed

lemma retry_init_avg:
  "avgSOC (retry_init cfg i s) = avgSOC s" "avgVolt (retry_init cfg i s) = avgVolt s"
  using initGesture_from_avg [of 3 0 "gesture_begin i" "emit ErrLog s"]
  by (simp_all add: retry_init_def initGesture_def case_prod_beta)

lemma battery_averaging_avgSOC:
  "avgSOC (battery_averaging cfg i s) =
     (if sint (lastBatteryAveraging s + 10000) < sint (clock s)
      then push_avg (AVERAGING_WINDOW cfg) (soc_sample cfg (getVolt (battery_averaging cfg i s)))
             (avgSOC s)
      else avgSOC s)"
  by (simp add: battery_averaging_def Let_def getVolt_def)

lemma render_avg: "avgSOC (render cfg s) = avgSOC s"
  by (simp add: render_def step_defs Let_def)

lemma service_avgSOC: "avgSOC (service cfg i s) = avgSOC (after_averaging cfg i s)"
  by (simp add: service_def Let_def before_events_def lowbatt_check_fields
      event_processing_avgSOC render_avg)

lemma set_push_avg: "set (push_avg n x w) \<subseteq> insert x (set w)"
  using set_take_subset [of n "x # w"] by (simp add: push_avg_def)

lemma after_averaging_avgSOC:
  "set (avgSOC (after_averaging cfg i s))
     \<subseteq> insert (soc_sample cfg (getVolt (after_averaging cfg i s))) (set (avgSOC s))"
proof -
  let ?r = "retry_init cfg i (s\<lparr>clock := t_now i\<rparr>)"
  have "avgSOC ?r = avgSOC s" by (simp add: retry_init_avg)
  then show ?thesis
    using set_push_avg [of "AVERAGING_WINDOW cfg"
        "soc_sample cfg (getVolt (battery_averaging cfg i ?r))" "avgSOC s"]
    by (auto simp: after_averaging_def battery_averaging_avgSOC)
qed

lemma sum_list_bounded: "\<forall>x\<in>set w. x \<le> (c::real) \<Longrightarrow> sum_list w \<le> c * real (length w)"
  by (induction w) (auto simp: algebra_simps)

lemma mean_bounded: "\<forall>x\<in>set w. x \<le> c \<Longrightarrow> 0 \<le> c \<Longrightarrow> mean w \<le> c"
  using sum_list_bounded [of w c]
  by (auto simp: mean_def divide_le_eq mult.commute)

lemma soc_sample_le: "soc_sample cfg v \<le> 100"
  by (simp add: soc_sample_def Let_def)

lemma soc_sample_sign:
  assumes "VOLT_LOW cfg < VOLT_HIGH cfg"
  shows "(0 \<le> soc_sample cfg v) = (VOLT_LOW cfg \<le> v)"
proof -
  define x where "x = 100 / (VOLT_HIGH cfg - VOLT_LOW cfg) * (v - VOLT_LOW cfg)"
  have pos: "0 < 100 / (VOLT_HIGH cfg - VOLT_LOW cfg)"
    using assms by simp
  have "(0 \<le> k * (v - VOLT_LOW cfg)) = (VOLT_LOW cfg \<le> v)" if "0 < k" for k :: real
    using that by (simp add: zero_le_mult_iff)
  then have eq: "(0 \<le> x) = (VOLT_LOW cfg \<le> v)"
    unfolding x_def using pos by blast
  have "soc_sample cfg v = (if 100 < x then 100 else x)"
    unfolding x_def soc_sample_def Let_def by (rule refl)
  then show ?thesis using eq by auto
qed

lemma backlight_calls_emit:
  "backlight_calls b (emit a s) = backlight_calls b s + (if a = Backlight b then 1 else 0)"
  by (simp add: backlight_calls_def emit_def)

lemma after_averaging_backlight:
  "backlight_calls b (after_averaging cfg i s) = backlight_calls b s"
proof -
  obtain X where X: "trace (after_averaging cfg i s) = trace s @ X"
      "set X \<subseteq> {GestureBegin, ErrLog, Delay 2000, ReadVCell}"
    using after_averaging_trace by blast
  have "count_list X (Backlight b) = 0"
    using X(2) by (auto simp: count_list_0_iff)
  then show ?thesis
    using X(1) by (simp add: backlight_calls_def)
qed

lemma lowbatt_check_backlight:
  "backlight_calls b (lowbatt_check cfg s) = backlight_calls b s"
  by (simp add: lowbatt_check_def enter_lowbatt_def disable_siblings_def step_defs Let_def
      backlight_calls_def emit_def siblings_def)

lemma before_events_backlight:
  "backlight_calls b (before_events cfg i s) = backlight_calls b s"
  by (simp add: before_events_def lowbatt_check_backlight after_averaging_backlight)

lemma render_backlight: "backlight_calls b (render cfg s) = backlight_calls b s"
  by (simp add: render_def step_defs Let_def backlight_calls_def emit_def)

lemma displayOff_backlight:
  "backlight_calls False (displayOff s) = Suc (backlight_calls False s)"
  "backlight_calls True (displayOff s) = backlight_calls True s"
  "\<not> isDisplayOn (displayOff s)"
  by (simp_all add: displayOff_def initDisplay_def backlight_calls_def emit_def)

section \<open>Properties\<close>

subsection \<open>C1: the forced change to the low-battery screen\<close>

text \<open>
  C1 (as amended). In a run in which every tick sees an averaged voltage at or below
  \<^verbatim>\<open>VOLT_LOW\<close>, that has a tick and starts outside the low-battery screen, the screen and
  disable calls of the whole run are exactly: deactivate and destroy the screen that was
  current, construct and activate the low-battery screen, and then, in a build without
  \<^verbatim>\<open>KILL_INSTALLED\<close>, one disable call for each of the nine sibling tasks (none in a build
  with it). The run ends in the low-battery screen. A run that starts in the low-battery
  screen makes no screen call and no disable call at all and stays there.
\<close>

theorem lowbatt_transition_once:
  "(sees_low_throughout cfg steps s \<and> has_tick steps
      \<and> currentScreenID s \<noteq> LOWBATT_SCREEN cfg \<longrightarrow>
      transitions (run cfg steps s) = transitions s @
        [Deactivate (scr_id (currentScreen s)), Destroy (scr_id (currentScreen s)),
         Construct (LOWBATT_SCREEN cfg), Activate (LOWBATT_SCREEN cfg)]
        @ (if KILL_INSTALLED cfg then [] else map Disable siblings)
      \<and> currentScreenID (run cfg steps s) = LOWBATT_SCREEN cfg
      \<and> count_list (transitions (run cfg steps s)) (Disable t)
          = count_list (transitions s) (Disable t) + (if KILL_INSTALLED cfg then 0 else 1))
   \<and> (currentScreenID s = LOWBATT_SCREEN cfg \<longrightarrow>
        transitions (run cfg steps s) = transitions s
        \<and> currentScreenID (run cfg steps s) = LOWBATT_SCREEN cfg)"
proof (intro conjI impI)
  assume a: "sees_low_throughout cfg steps s \<and> has_tick steps
      \<and> currentScreenID s \<noteq> LOWBATT_SCREEN cfg"
  then have e: "lowbatt_entered cfg s (run cfg steps s)"
    by (simp add: run_enters_lowbatt)
  then show "transitions (run cfg steps s) = transitions s @
        [Deactivate (scr_id (currentScreen s)), Destroy (scr_id (currentScreen s)),
         Construct (LOWBATT_SCREEN cfg), Activate (LOWBATT_SCREEN cfg)]
        @ (if KILL_INSTALLED cfg then [] else map Disable siblings)"
    by (simp add: lowbatt_entered_def)
  from e show "currentScreenID (run cfg steps s) = LOWBATT_SCREEN cfg"
    by (simp add: lowbatt_entered_def)
  from e show "count_list (transitions (run cfg steps s)) (Disable t)
          = count_list (transitions s) (Disable t) + (if KILL_INSTALLED cfg then 0 else 1)"
    by (simp add: lowbatt_entered_def count_disable_siblings)
next
  assume "currentScreenID s = LOWBATT_SCREEN cfg"
  then have n: "no_change s (run cfg steps s)" by (rule run_in_lowbatt)
  then show "transitions (run cfg steps s) = transitions s"
    by (simp add: no_change_def)
  from n \<open>currentScreenID s = LOWBATT_SCREEN cfg\<close>
  show "currentScreenID (run cfg steps s) = LOWBATT_SCREEN cfg"
    by (simp add: no_change_def)
qed

theorem lowbatt_transition_once_witness:
  "sees_low_throughout demo_cfg low_run demo_state \<and> has_tick low_run
   \<and> currentScreenID demo_state \<noteq> LOWBATT_SCREEN demo_cfg
   \<and> transitions (run demo_cfg low_run demo_state) =
       [Deactivate 2, Destroy 2, Construct 0, Activate 0] @ map Disable siblings
   \<and> count_list (transitions (run demo_cfg low_run demo_state)) (Disable GeoLocation) = 1"
proof -
  have h: "sees_low_throughout demo_cfg low_run demo_state \<and> has_tick low_run
      \<and> currentScreenID demo_state \<noteq> LOWBATT_SCREEN demo_cfg"
    by (simp add: eval_defs)
  have t: "transitions demo_state = []" "scr_id (currentScreen demo_state) = 2"
    "LOWBATT_SCREEN demo_cfg = 0" "\<not> KILL_INSTALLED demo_cfg"
    by (simp_all add: transitions_def demo_state_def demo_cfg_def)
  show ?thesis
    using h t lowbatt_transition_once [of demo_cfg low_run demo_state GeoLocation]
    by (simp add: count_disable_siblings)
qed

text \<open>
  C1 as stated fails in a build with \<^verbatim>\<open>KILL_INSTALLED\<close>: the tick sees a low voltage
  outside the low-battery screen and enters it, and no sibling task is disabled.
\<close>

theorem lowbatt_transition_once_counterexample:
  "getVolt (after_averaging kill_cfg low_in demo_state) \<le> VOLT_LOW kill_cfg
   \<and> currentScreenID demo_state \<noteq> LOWBATT_SCREEN kill_cfg
   \<and> currentScreenID (service kill_cfg low_in demo_state) = LOWBATT_SCREEN kill_cfg
   \<and> count_list (trace (service kill_cfg low_in demo_state)) (Disable ParticleSensor) = 0"
  by (simp add: eval_defs)

subsection \<open>C2: the latch holds one event\<close>

text \<open>
  C2. The latch holds at most one event: an interrupt that finds the flag set changes
  nothing (flag, event time and forced dispatch included), so a second interrupt before
  the tick is absorbed, the tick after two interrupts is the tick after one, a tick reads
  the gesture sensor at most once, and when the tick honours the event, exactly once.
\<close>

theorem latch_holds_one_event:
  "(eventFlag s \<longrightarrow> onGesture t s = s)
   \<and> onGesture t2 (onGesture t1 s) = onGesture t1 s
   \<and> run cfg [Interrupt t1, Interrupt t2, Tick i] s = run cfg [Interrupt t1, Tick i] s
   \<and> reads (service cfg i s) \<le> Suc (reads s)
   \<and> (honoured cfg i (onGesture t1 s) \<longrightarrow>
        reads (run cfg [Interrupt t1, Interrupt t2, Tick i] s) = Suc (reads s))"
  by (simp add: onGesture_twice service_reads onGesture_reads) (simp add: onGesture_def)

theorem latch_holds_one_event_witness:
  "eventFlag pending_state \<and> onGesture 4500 pending_state = pending_state
   \<and> honoured demo_cfg (demo_in\<lparr>raw_gesture := GES_DOWN\<rparr>) (onGesture 4000 demo_state)
   \<and> reads (run demo_cfg [Interrupt 4000, Interrupt 4500, Tick (demo_in\<lparr>raw_gesture := GES_DOWN\<rparr>)]
         demo_state) = 1"
proof -
  have f: "eventFlag pending_state"
    by (simp add: pending_state_def demo_state_def onGesture_def emit_def)
  have h: "honoured demo_cfg (demo_in\<lparr>raw_gesture := GES_DOWN\<rparr>) (onGesture 4000 demo_state)"
    by (simp add: honoured_def eval_defs)
  have r: "reads demo_state = 0"
    by (simp add: reads_def demo_state_def)
  have a: "onGesture 4500 pending_state = pending_state"
    using f latch_holds_one_event [of pending_state 4500 4500 4000 demo_cfg demo_in] by blast
  have "reads (run demo_cfg [Interrupt 4000, Interrupt 4500,
          Tick (demo_in\<lparr>raw_gesture := GES_DOWN\<rparr>)] demo_state) = Suc (reads demo_state)"
    using h latch_holds_one_event [of demo_state 4500 4500 4000 demo_cfg
        "demo_in\<lparr>raw_gesture := GES_DOWN\<rparr>"] by blast
  then show ?thesis
    using f h r a by simp
qed

subsection \<open>C3: the debounce window\<close>

text \<open>
  C3 (as amended). A tick that finds the latch set and does not restart the device reads
  the event only when more than 1000 ms have passed since the last read: then the latch
  is cleared before the read (and is clear at the end of the tick unless an interrupt
  arrived during one of its delays) and the time of the read is remembered. Otherwise
  the tick leaves the latch set and reads nothing: the event stays pending for a later
  tick.
\<close>

theorem debounce_defers:
  "eventFlag s \<and> \<not> restarted (before_events cfg i s) \<longrightarrow>
     (if 1000 < clock (before_events cfg i s) - lastEventProcessing s
      then reads (service cfg i s) = Suc (reads s)
           \<and> lastEventProcessing (service cfg i s) = clock (before_events cfg i s)
           \<and> (irq_in_delay i = None \<longrightarrow> \<not> eventFlag (service cfg i s))
      else eventFlag (service cfg i s) \<and> reads (service cfg i s) = reads s
           \<and> lastEventProcessing (service cfg i s) = lastEventProcessing s
           \<and> eventTime (service cfg i s) = eventTime s)"
proof (intro impI)
  let ?b = "before_events cfg i s"
  assume a: "eventFlag s \<and> \<not> restarted ?b"
  then have s: "service cfg i s = render cfg (event_processing cfg i ?b)"
    by (simp add: service_def Let_def)
  have f: "eventFlag ?b" "lastEventProcessing ?b = lastEventProcessing s"
    "eventTime ?b = eventTime s"
    using a by (simp_all add: before_events_fields)
  show "if 1000 < clock ?b - lastEventProcessing s
      then reads (service cfg i s) = Suc (reads s)
           \<and> lastEventProcessing (service cfg i s) = clock ?b
           \<and> (irq_in_delay i = None \<longrightarrow> \<not> eventFlag (service cfg i s))
      else eventFlag (service cfg i s) \<and> reads (service cfg i s) = reads s
           \<and> lastEventProcessing (service cfg i s) = lastEventProcessing s
           \<and> eventTime (service cfg i s) = eventTime s"
  proof (cases "1000 < clock ?b - lastEventProcessing s")
    case True
    then have "1000 < clock ?b - lastEventProcessing ?b" using f by simp
    then have "lastEventProcessing (event_processing cfg i ?b) = clock ?b
       \<and> (irq_in_delay i = None \<longrightarrow> \<not> eventFlag (event_processing cfg i ?b))"
      using f(1) by (rule event_processing_honoured [rotated])
    moreover have "reads (service cfg i s) = Suc (reads s)"
      using True a by (simp add: service_reads honoured_def)
    ultimately show ?thesis
      using True s by (simp add: render_fields)
  next
    case False
    then have "event_processing cfg i ?b = ?b"
      using f by (simp add: event_processing_deferred)
    moreover have "reads (service cfg i s) = reads s"
      using False a by (simp add: service_reads honoured_def)
    ultimately show ?thesis
      using False s f by (simp add: render_fields)
  qed
qed

theorem debounce_defers_witness:
  "eventFlag pending_state
   \<and> \<not> restarted (before_events demo_cfg demo_in pending_state)
   \<and> 1000 < clock (before_events demo_cfg demo_in pending_state) - lastEventProcessing pending_state
   \<and> reads (service demo_cfg demo_in pending_state) = 1
   \<and> \<not> eventFlag (service demo_cfg demo_in pending_state)
   \<and> eventFlag recent_state
   \<and> \<not> restarted (before_events demo_cfg demo_in recent_state)
   \<and> \<not> 1000 < clock (before_events demo_cfg demo_in recent_state) - lastEventProcessing recent_state
   \<and> eventFlag (service demo_cfg demo_in recent_state)
   \<and> reads (service demo_cfg demo_in recent_state) = 0"
proof -
  have p: "eventFlag pending_state"
    "\<not> restarted (before_events demo_cfg demo_in pending_state)"
    "1000 < clock (before_events demo_cfg demo_in pending_state) - lastEventProcessing pending_state"
    "reads pending_state = 0" "irq_in_delay demo_in = None"
    by (simp_all add: pending_state_def reads_def eval_defs)
  have r: "eventFlag recent_state"
    "\<not> restarted (before_events demo_cfg demo_in recent_state)"
    "\<not> 1000 < clock (before_events demo_cfg demo_in recent_state) - lastEventProcessing recent_state"
    "reads recent_state = 0"
    by (simp_all add: recent_state_def pending_state_def reads_def eval_defs)
  have "reads (service demo_cfg demo_in pending_state) = Suc (reads pending_state)
      \<and> \<not> eventFlag (service demo_cfg demo_in pending_state)"
    using p debounce_defers [of pending_state demo_cfg demo_in] by simp
  moreover have "eventFlag (service demo_cfg demo_in recent_state)
      \<and> reads (service demo_cfg demo_in recent_state) = reads recent_state"
    using r debounce_defers [of recent_state demo_cfg demo_in] by simp
  ultimately show ?thesis using p r by simp
qed

text \<open>
  C3 as stated fails: 500 ms after the last read the tick leaves the latch set, and the
  tick one second later reads the event.
\<close>

theorem debounce_defers_counterexample:
  "eventFlag recent_state
   \<and> clock (before_events demo_cfg demo_in recent_state) - lastEventProcessing recent_state = 500
   \<and> eventFlag (service demo_cfg demo_in recent_state)
   \<and> reads (service demo_cfg demo_in recent_state) = 0
   \<and> reads (service demo_cfg (demo_in\<lparr>t_now := 6000\<rparr>) (service demo_cfg demo_in recent_state)) = 1"
  by (simp add: recent_state_def pending_state_def reads_def eval_defs)

subsection \<open>C4: a forward gesture in the low-battery screen\<close>

text \<open>
  C4. The code at the input of the claim: display on, low-battery screen, an honoured
  event decoded as forward. The tick reads the gesture and does nothing with it: no
  backlight call is made and the display stays on. (Outside the low-battery screen the
  same gesture turns the display off: \<open>dispatch_event_forward\<close>; in it every event is
  dropped: \<open>dispatch_event_lowbatt\<close>.)
\<close>

theorem lowbatt_forward_keeps_display_on:
  "isDisplayOn lowbatt_state \<and> currentScreenID lowbatt_state = LOWBATT_SCREEN demo_cfg
   \<and> honoured demo_cfg (demo_in\<lparr>raw_gesture := GES_FORWARD\<rparr>) lowbatt_state
   \<and> fst (getUserEvent GES_FORWARD lowbatt_state) = GES_FORWARD
   \<and> isDisplayOn (service demo_cfg (demo_in\<lparr>raw_gesture := GES_FORWARD\<rparr>) lowbatt_state)
   \<and> trace (service demo_cfg (demo_in\<lparr>raw_gesture := GES_FORWARD\<rparr>) lowbatt_state)
       = trace lowbatt_state @ [ReadGesture, Update 0]"
  by (simp add: honoured_def lowbatt_state_def eval_defs)

subsection \<open>C5: the order of screen replacement\<close>

text \<open>
  C5. In every tick the screen life-cycle calls are none, or the deactivate and activate
  of a rotation, or exactly deactivate and destroy of the outgoing screen followed by
  construct and activate of the incoming one (swipe, setup entry, forced low-battery
  entry). Hence the slot monitor accepts the trace after the tick when it accepted the
  trace before: no screen is constructed while another is allocated, and no two screens
  are active together.
\<close>

theorem screen_replacement_order:
  "((lifecycle_calls (service cfg i s) = lifecycle_calls s
      \<and> scr_id (currentScreen (service cfg i s)) = scr_id (currentScreen s))
    \<or> (lifecycle_calls (service cfg i s) = lifecycle_calls s @
         [Deactivate (scr_id (currentScreen s)), Activate (scr_id (currentScreen s))]
      \<and> scr_id (currentScreen (service cfg i s)) = scr_id (currentScreen s))
    \<or> lifecycle_calls (service cfg i s) = lifecycle_calls s @
         [Deactivate (scr_id (currentScreen s)), Destroy (scr_id (currentScreen s)),
          Construct (scr_id (currentScreen (service cfg i s))),
          Activate (scr_id (currentScreen (service cfg i s)))])
   \<and> (slot_run q (trace s) = Some (Held (scr_id (currentScreen s)) True) \<longrightarrow>
        slot_run q (trace (service cfg i s))
          = Some (Held (scr_id (currentScreen (service cfg i s))) True))"
  using service_lifecycle_cases [of cfg i s] service_slot [of q s cfg i] by blast

theorem screen_replacement_order_witness:
  "slot_run Empty (trace shown_state) = Some (Held (scr_id (currentScreen shown_state)) True)
   \<and> lifecycle_calls (service demo_cfg (demo_in\<lparr>raw_gesture := GES_DOWN\<rparr>) shown_state)
       = [Construct 2, Activate 2, Deactivate 2, Destroy 2, Construct 3, Activate 3]
   \<and> slot_run Empty (trace (service demo_cfg (demo_in\<lparr>raw_gesture := GES_DOWN\<rparr>) shown_state))
       = Some (Held 3 True)"
proof -
  let ?s = "service demo_cfg (demo_in\<lparr>raw_gesture := GES_DOWN\<rparr>) shown_state"
  have h: "slot_run Empty (trace shown_state)
      = Some (Held (scr_id (currentScreen shown_state)) True)"
    by (simp add: shown_state_def demo_state_def)
  have c: "scr_id (currentScreen ?s) = 3"
    "lifecycle_calls ?s = [Construct 2, Activate 2, Deactivate 2, Destroy 2, Construct 3, Activate 3]"
    by (simp_all add: lifecycle_calls_def shown_state_def eval_defs)
  have "slot_run Empty (trace ?s) = Some (Held (scr_id (currentScreen ?s)) True)"
    using h screen_replacement_order [of demo_cfg "demo_in\<lparr>raw_gesture := GES_DOWN\<rparr>"
        shown_state Empty] by blast
  then show ?thesis
    using h c by simp
qed

subsection \<open>C6: the remapping of directions\<close>

text \<open>
  C6 (as amended). The decoded gesture is a function of the raw code and the rotation.
  With rotation 0 the four directions turn up to left, left to down, down to right and
  right to up; with any other rotation value (the code uses 2 for 180 degrees) they turn
  the other way: up to right, right to down, down to left, left to up. Forward, backward,
  clockwise, counter-clockwise and wave pass through unchanged under both.
\<close>

theorem getUserEvent_remap:
  "(currentScreenRotation s = 0 \<longrightarrow>
      fst (getUserEvent GES_UP s) = GES_LEFT \<and> fst (getUserEvent GES_LEFT s) = GES_DOWN
      \<and> fst (getUserEvent GES_DOWN s) = GES_RIGHT \<and> fst (getUserEvent GES_RIGHT s) = GES_UP)
   \<and> (currentScreenRotation s \<noteq> 0 \<longrightarrow>
      fst (getUserEvent GES_UP s) = GES_RIGHT \<and> fst (getUserEvent GES_RIGHT s) = GES_DOWN
      \<and> fst (getUserEvent GES_DOWN s) = GES_LEFT \<and> fst (getUserEvent GES_LEFT s) = GES_UP)
   \<and> fst (getUserEvent GES_FORWARD s) = GES_FORWARD
   \<and> fst (getUserEvent GES_BACKWARD s) = GES_BACKWARD
   \<and> fst (getUserEvent GES_CLOCKWISE s) = GES_CLOCKWISE
   \<and> fst (getUserEvent GES_CNTRCLOCKWISE s) = GES_CNTRCLOCKWISE
   \<and> fst (getUserEvent GES_WAVE s) = GES_WAVE
   \<and> fst (getUserEvent raw s) = remap_gesture (currentScreenRotation s) raw
   \<and> snd (getUserEvent raw s) = emit ReadGesture s"
  by (simp add: getUserEvent_def)

theorem getUserEvent_remap_witness:
  "currentScreenRotation demo_state = 0 \<and> fst (getUserEvent GES_UP demo_state) = GES_LEFT
   \<and> currentScreenRotation rotated_state \<noteq> 0 \<and> fst (getUserEvent GES_UP rotated_state) = GES_RIGHT
   \<and> fst (getUserEvent GES_LEFT rotated_state) = GES_UP"
proof -
  have a: "currentScreenRotation demo_state = 0" by (simp add: demo_state_def)
  have b: "currentScreenRotation rotated_state \<noteq> 0" by (simp add: rotated_state_def)
  show ?thesis
    using a b getUserEvent_remap [of demo_state GES_UP] getUserEvent_remap [of rotated_state GES_UP]
    by simp
qed

text \<open>
  C6 as stated fails: rotated, up is decoded as right, not left; not rotated, up is
  decoded as left, not right.
\<close>

theorem getUserEvent_remap_counterexample:
  "currentScreenRotation rotated_state = 2
   \<and> fst (getUserEvent GES_UP rotated_state) \<noteq> GES_LEFT
   \<and> currentScreenRotation demo_state = 0
   \<and> fst (getUserEvent GES_UP demo_state) \<noteq> GES_RIGHT"
  by (simp add: getUserEvent_def rotated_state_def demo_state_def)

subsection \<open>C7: the idle timeout\<close>

text \<open>
  C7 (as amended). The condition of line 385 is 1 exactly when the display is on and the
  time since the last event exceeds the threshold: twice \<^verbatim>\<open>BACKLIGHT_TIMEOUT\<close> when the
  averaged state of charge is above 95, \<^verbatim>\<open>BACKLIGHT_TIMEOUT\<close> otherwise. A tick that finds
  no pending event and does not restart the device turns the display off exactly then:
  it writes the backlight pin low once and clears \<open>isDisplayOn\<close>; otherwise it writes
  the pin not at all and leaves the display as it was. A tick that restarts the device
  ends before the idle check: it writes the pin not at all and leaves the display as it
  was.
\<close>

theorem idle_timeout:
  "idle_timeout_cond cfg s =
     (if isDisplayOn s
         \<and> (if 95 < getSoC s then 2 * BACKLIGHT_TIMEOUT cfg else BACKLIGHT_TIMEOUT cfg)
            < clock s - eventTime s
      then 1 else 0)
   \<and> (\<not> eventFlag s \<and> \<not> restarted (before_events cfg i s) \<longrightarrow>
     service cfg i s =
       render cfg
         (if isDisplayOn s
             \<and> (if 95 < getSoC (before_events cfg i s)
                 then 2 * BACKLIGHT_TIMEOUT cfg else BACKLIGHT_TIMEOUT cfg)
                < clock (before_events cfg i s) - eventTime s
          then displayOff (before_events cfg i s) else before_events cfg i s)
     \<and> isDisplayOn (service cfg i s) =
         (isDisplayOn s
          \<and> \<not> (if 95 < getSoC (before_events cfg i s)
                 then 2 * BACKLIGHT_TIMEOUT cfg else BACKLIGHT_TIMEOUT cfg)
                < clock (before_events cfg i s) - eventTime s)
     \<and> backlight_calls False (service cfg i s) =
         backlight_calls False s +
         (if isDisplayOn s
             \<and> (if 95 < getSoC (before_events cfg i s)
                 then 2 * BACKLIGHT_TIMEOUT cfg else BACKLIGHT_TIMEOUT cfg)
                < clock (before_events cfg i s) - eventTime s
          then 1 else 0)
     \<and> backlight_calls True (service cfg i s) = backlight_calls True s)
   \<and> (restarted (before_events cfg i s) \<longrightarrow>
     service cfg i s = before_events cfg i s
     \<and> isDisplayOn (service cfg i s) = isDisplayOn s
     \<and> backlight_calls b (service cfg i s) = backlight_calls b s)"
proof (intro conjI impI)
  let ?b = "before_events cfg i s"
  let ?off = "isDisplayOn s
      \<and> (if 95 < getSoC ?b then 2 * BACKLIGHT_TIMEOUT cfg else BACKLIGHT_TIMEOUT cfg)
         < clock ?b - eventTime s"
  show "idle_timeout_cond cfg s =
     (if isDisplayOn s
         \<and> (if 95 < getSoC s then 2 * BACKLIGHT_TIMEOUT cfg else BACKLIGHT_TIMEOUT cfg)
            < clock s - eventTime s
      then 1 else 0)"
    by (auto simp: idle_timeout_cond_def mult.commute)
  {
    assume a: "\<not> eventFlag s \<and> \<not> restarted ?b"
    show eq: "service cfg i s = render cfg (if ?off then displayOff ?b else ?b)"
      using a by (simp add: service_def Let_def event_processing_idle before_events_fields)
    show "isDisplayOn (service cfg i s) =
        (isDisplayOn s
         \<and> \<not> (if 95 < getSoC ?b then 2 * BACKLIGHT_TIMEOUT cfg else BACKLIGHT_TIMEOUT cfg)
              < clock ?b - eventTime s)"
      unfolding eq by (auto simp: render_fields displayOff_backlight before_events_fields)
    show "backlight_calls False (service cfg i s) =
        backlight_calls False s + (if ?off then 1 else 0)"
      unfolding eq
      by (simp add: render_backlight displayOff_backlight before_events_backlight)
    show "backlight_calls True (service cfg i s) = backlight_calls True s"
      unfolding eq
      by (simp add: render_backlight displayOff_backlight before_events_backlight)
  }
  {
    assume r: "restarted ?b"
    show eq2: "service cfg i s = ?b"
      using r by (simp add: service_def Let_def)
    show "isDisplayOn (service cfg i s) = isDisplayOn s"
      unfolding eq2 by (simp add: before_events_fields)
    show "backlight_calls b (service cfg i s) = backlight_calls b s"
      unfolding eq2 by (simp add: before_events_backlight)
  }
qed

theorem idle_timeout_witness:
  "\<not> eventFlag charged_state
   \<and> \<not> restarted (before_events demo_cfg (idle_in 70000 (42 / 10)) charged_state)
   \<and> getSoC (before_events demo_cfg (idle_in 70000 (42 / 10)) charged_state) = 99
   \<and> isDisplayOn (service demo_cfg (idle_in 70000 (42 / 10)) charged_state)
   \<and> backlight_calls False (service demo_cfg (idle_in 70000 (42 / 10)) charged_state) = 0
   \<and> \<not> eventFlag discharged_state
   \<and> \<not> restarted (before_events demo_cfg (idle_in 70000 (39 / 10)) discharged_state)
   \<and> getSoC (before_events demo_cfg (idle_in 70000 (39 / 10)) discharged_state) = 50
   \<and> \<not> isDisplayOn (service demo_cfg (idle_in 70000 (39 / 10)) discharged_state)
   \<and> backlight_calls False (service demo_cfg (idle_in 70000 (39 / 10)) discharged_state) = 1
   \<and> restarted (before_events demo_cfg (idle_in 130000 (42 / 10)) recharged_state)
   \<and> isDisplayOn (service demo_cfg (idle_in 130000 (42 / 10)) recharged_state)"
proof -
  let ?c = "before_events demo_cfg (idle_in 70000 (42 / 10)) charged_state"
  let ?d = "before_events demo_cfg (idle_in 70000 (39 / 10)) discharged_state"
  let ?r = "before_events demo_cfg (idle_in 130000 (42 / 10)) recharged_state"
  have a: "\<not> eventFlag charged_state" "\<not> eventFlag discharged_state"
    "isDisplayOn charged_state" "isDisplayOn discharged_state"
    "eventTime charged_state = 0" "eventTime discharged_state = 0"
    "BACKLIGHT_TIMEOUT demo_cfg = 60000"
    "backlight_calls False charged_state = 0" "backlight_calls False discharged_state = 0"
    "isDisplayOn recharged_state"
    by (simp_all add: charged_state_def discharged_state_def recharged_state_def demo_state_def
        demo_cfg_def backlight_calls_def)
  have c: "\<not> restarted ?c" "getSoC ?c = 99" "clock ?c = 70000"
    by (simp_all add: eval_defs charged_state_def idle_in_def)
  have d: "\<not> restarted ?d" "getSoC ?d = 50" "clock ?d = 70000"
    by (simp_all add: eval_defs discharged_state_def idle_in_def)
  have r: "restarted ?r"
    by (simp add: eval_defs recharged_state_def charged_state_def idle_in_def)
  have "isDisplayOn (service demo_cfg (idle_in 70000 (42 / 10)) charged_state) =
      (isDisplayOn charged_state
       \<and> \<not> (if 95 < getSoC ?c then 2 * BACKLIGHT_TIMEOUT demo_cfg else BACKLIGHT_TIMEOUT demo_cfg)
            < clock ?c - eventTime charged_state)
    \<and> backlight_calls False (service demo_cfg (idle_in 70000 (42 / 10)) charged_state) =
      backlight_calls False charged_state +
      (if isDisplayOn charged_state
          \<and> (if 95 < getSoC ?c then 2 * BACKLIGHT_TIMEOUT demo_cfg else BACKLIGHT_TIMEOUT demo_cfg)
             < clock ?c - eventTime charged_state
       then 1 else 0)"
    using a(1) c(1)
      idle_timeout [where s = charged_state and cfg = demo_cfg and i = "idle_in 70000 (42 / 10)"]
    by blast
  then have on: "isDisplayOn (service demo_cfg (idle_in 70000 (42 / 10)) charged_state)"
    "backlight_calls False (service demo_cfg (idle_in 70000 (42 / 10)) charged_state) = 0"
    using a c by simp_all
  have "isDisplayOn (service demo_cfg (idle_in 70000 (39 / 10)) discharged_state) =
      (isDisplayOn discharged_state
       \<and> \<not> (if 95 < getSoC ?d then 2 * BACKLIGHT_TIMEOUT demo_cfg else BACKLIGHT_TIMEOUT demo_cfg)
            < clock ?d - eventTime discharged_state)
    \<and> backlight_calls False (service demo_cfg (idle_in 70000 (39 / 10)) discharged_state) =
      backlight_calls False discharged_state +
      (if isDisplayOn discharged_state
          \<and> (if 95 < getSoC ?d then 2 * BACKLIGHT_TIMEOUT demo_cfg else BACKLIGHT_TIMEOUT demo_cfg)
             < clock ?d - eventTime discharged_state
       then 1 else 0)"
    using a(2) d(1)
      idle_timeout [where s = discharged_state and cfg = demo_cfg and i = "idle_in 70000 (39 / 10)"]
    by blast
  then have off: "\<not> isDisplayOn (service demo_cfg (idle_in 70000 (39 / 10)) discharged_state)"
    "backlight_calls False (service demo_cfg (idle_in 70000 (39 / 10)) discharged_state) = 1"
    using a d by simp_all
  have "isDisplayOn (service demo_cfg (idle_in 130000 (42 / 10)) recharged_state)
      = isDisplayOn recharged_state"
    using r
      idle_timeout [where s = recharged_state and cfg = demo_cfg and i = "idle_in 130000 (42 / 10)"]
    by blast
  then have rs: "isDisplayOn (service demo_cfg (idle_in 130000 (42 / 10)) recharged_state)"
    using a by simp
  show ?thesis using a c d r on off rs by simp
qed

text \<open>
  C7 as stated fails on a tick that restarts the device: the low-battery screen is shown,
  the averaged voltage is above the midpoint, no event is pending, the display is on and
  has been idle for longer than twice \<^verbatim>\<open>BACKLIGHT_TIMEOUT\<close>. The restart of lines 168 to 173
  comes before the idle check of line 385, so the backlight pin is not written and the
  display stays on.
\<close>

theorem idle_timeout_counterexample:
  "\<not> eventFlag recharged_state \<and> isDisplayOn recharged_state
   \<and> getSoC (after_averaging demo_cfg (idle_in 130000 (42 / 10)) recharged_state) = 99
   \<and> 2 * BACKLIGHT_TIMEOUT demo_cfg
       < t_now (idle_in 130000 (42 / 10)) - eventTime recharged_state
   \<and> isDisplayOn (service demo_cfg (idle_in 130000 (42 / 10)) recharged_state)
   \<and> backlight_calls False (service demo_cfg (idle_in 130000 (42 / 10)) recharged_state) = 0
   \<and> trace (service demo_cfg (idle_in 130000 (42 / 10)) recharged_state)
       = [ReadVCell, SyslogInfo, Delay 1000, Restart]"
  by (simp add: recharged_state_def charged_state_def idle_in_def backlight_calls_def eval_defs)

subsection \<open>C8: the range of the state of charge\<close>

text \<open>
  C8 (as amended). Every value pushed into the state-of-charge filter is at most 100, and
  (with \<^verbatim>\<open>VOLT_LOW < VOLT_HIGH\<close>) it is non-negative exactly when the averaged voltage is at
  least \<^verbatim>\<open>VOLT_LOW\<close>. A tick adds at most that one value to the window, so a window of
  values that are at most 100 stays one, and \<open>getSoC\<close> is then at most 100.
\<close>

theorem soc_at_most_100:
  "soc_sample cfg v \<le> 100
   \<and> (VOLT_LOW cfg < VOLT_HIGH cfg \<longrightarrow> (0 \<le> soc_sample cfg v) = (VOLT_LOW cfg \<le> v))
   \<and> set (avgSOC (service cfg i s))
        \<subseteq> insert (soc_sample cfg (getVolt (after_averaging cfg i s))) (set (avgSOC s))
   \<and> ((\<forall>x\<in>set (avgSOC s). x \<le> 100) \<longrightarrow>
        (\<forall>x\<in>set (avgSOC (service cfg i s)). x \<le> 100) \<and> getSoC (service cfg i s) \<le> 100)"
proof (intro conjI impI)
  show "soc_sample cfg v \<le> 100" by (rule soc_sample_le)
  show "(0 \<le> soc_sample cfg v) = (VOLT_LOW cfg \<le> v)" if "VOLT_LOW cfg < VOLT_HIGH cfg"
    using that by (rule soc_sample_sign)
  show sub: "set (avgSOC (service cfg i s))
        \<subseteq> insert (soc_sample cfg (getVolt (after_averaging cfg i s))) (set (avgSOC s))"
    using after_averaging_avgSOC [of cfg i s] by (simp add: service_avgSOC)
  assume b: "\<forall>x\<in>set (avgSOC s). x \<le> 100"
  show all: "\<forall>x\<in>set (avgSOC (service cfg i s)). x \<le> 100"
    using sub b soc_sample_le [of cfg "getVolt (after_averaging cfg i s)"] by auto
  show "getSoC (service cfg i s) \<le> 100"
    using all mean_bounded [of "avgSOC (service cfg i s)" 100] by (simp add: getSoC_def)
qed

theorem soc_at_most_100_witness:
  "VOLT_LOW demo_cfg < VOLT_HIGH demo_cfg \<and> soc_sample demo_cfg 3 < 0
   \<and> soc_sample demo_cfg 5 = 100 \<and> soc_sample demo_cfg (39 / 10) = 50
   \<and> avgSOC charged_state = [98]
   \<and> getSoC (service demo_cfg (idle_in 70000 (42 / 10)) charged_state) \<le> 100"
proof -
  have a: "VOLT_LOW demo_cfg < VOLT_HIGH demo_cfg" by (simp add: demo_cfg_def)
  have b: "\<forall>x\<in>set (avgSOC charged_state). x \<le> 100"
    by (simp add: charged_state_def demo_state_def)
  have c: "soc_sample demo_cfg 5 = 100" "soc_sample demo_cfg (39 / 10) = 50"
    by (simp_all add: soc_sample_def demo_cfg_def)
  have "soc_sample demo_cfg 3 < 0"
    using a soc_at_most_100 [of demo_cfg 3 demo_in demo_state] by (simp add: demo_cfg_def)
  moreover have "getSoC (service demo_cfg (idle_in 70000 (42 / 10)) charged_state) \<le> 100"
    using b soc_at_most_100 [of demo_cfg 3 "idle_in 70000 (42 / 10)" charged_state] by blast
  moreover have "avgSOC charged_state = [98]"
    by (simp add: charged_state_def demo_state_def)
  ultimately show ?thesis using a c by simp
qed

text \<open>
  C8 as stated fails below \<^verbatim>\<open>VOLT_LOW\<close>: with an averaged voltage of 3.5 V against a
  threshold of 3.6 V the value pushed, and the averaged state of charge, are negative.
\<close>

theorem soc_at_most_100_counterexample:
  "getVolt (after_averaging demo_cfg low_in demo_state) < VOLT_LOW demo_cfg
   \<and> avgSOC (service demo_cfg low_in demo_state) = [- (50 / 3)]
   \<and> getSoC (service demo_cfg low_in demo_state) < 0"
  by (simp add: eval_defs)

subsection \<open>C9: unrecognized gesture codes\<close>

text \<open>
  C9 (as amended). A raw code outside the ten named ones is returned by the decode step
  as it is; the decode step returns none only for the raw code none. It is not an error:
  with the display on outside the low-battery screen the tick hands it to the current
  screen and, when the screen does not claim it, does nothing else.
\<close>

theorem unrecognized_passed_on:
  "fst (getUserEvent (GES_OTHER n) s) = GES_OTHER n
   \<and> (fst (getUserEvent raw s) = GES_NONE) = (raw = GES_NONE)
   \<and> (isDisplayOn s \<and> currentScreenID s \<noteq> LOWBATT_SCREEN cfg \<and> \<not> handled i \<longrightarrow>
        dispatch_event cfg i (GES_OTHER n) s
          = emit (OnUserEvent (scr_id (currentScreen s)) (GES_OTHER n)) s)"
  by (cases raw) (simp_all add: getUserEvent_def dispatch_event_def swipe_screen_def
      handleSwipe_def Let_def)

theorem unrecognized_passed_on_witness:
  "fst (getUserEvent (GES_OTHER 77) demo_state) = GES_OTHER 77
   \<and> fst (getUserEvent GES_NONE demo_state) = GES_NONE
   \<and> isDisplayOn demo_state \<and> currentScreenID demo_state \<noteq> LOWBATT_SCREEN demo_cfg
   \<and> \<not> handled demo_in
   \<and> trace (dispatch_event demo_cfg demo_in (GES_OTHER 77) demo_state)
        = [OnUserEvent 2 (GES_OTHER 77)]"
proof -
  have a: "isDisplayOn demo_state \<and> currentScreenID demo_state \<noteq> LOWBATT_SCREEN demo_cfg
      \<and> \<not> handled demo_in"
    by (simp add: demo_state_def demo_cfg_def demo_in_def)
  have "dispatch_event demo_cfg demo_in (GES_OTHER 77) demo_state
      = emit (OnUserEvent (scr_id (currentScreen demo_state)) (GES_OTHER 77)) demo_state"
    using a unrecognized_passed_on [of 77 demo_state GES_NONE demo_cfg demo_in] by blast
  then have "trace (dispatch_event demo_cfg demo_in (GES_OTHER 77) demo_state)
      = [OnUserEvent 2 (GES_OTHER 77)]"
    by (simp add: emit_def demo_state_def)
  then show ?thesis
    using a unrecognized_passed_on [of 77 demo_state GES_NONE demo_cfg demo_in] by simp
qed

text \<open>
  C9 as stated fails: the raw code 77 is not decoded as none.
\<close>

theorem getUserEvent_unrecognized_counterexample:
  "fst (getUserEvent (GES_OTHER 77) demo_state) \<noteq> GES_NONE"
  by (simp add: getUserEvent_def)

subsection \<open>C10: the swipe handler\<close>

text \<open>
  C10. For every event other than left and right, \<^verbatim>\<open>handleSwipe\<close> returns the screen
  identifier it was given, and the swipe branch of the tick, which calls it, leaves the
  state as it is.
\<close>

theorem handleSwipe_other_events:
  "evt \<noteq> GES_LEFT \<and> evt \<noteq> GES_RIGHT \<longrightarrow>
     handleSwipe cfg evt curScrn = curScrn \<and> swipe_screen cfg i evt s = s"
  by (simp add: handleSwipe_def swipe_screen_def)

theorem handleSwipe_other_events_witness:
  "handleSwipe demo_cfg GES_BACKWARD 4 = 4 \<and> handleSwipe demo_cfg GES_WAVE 1 = 1
   \<and> handleSwipe demo_cfg GES_UP 4 = 4 \<and> handleSwipe demo_cfg GES_DOWN 1 = 1
   \<and> handleSwipe demo_cfg (GES_OTHER 77) 3 = 3"
  using handleSwipe_other_events [of GES_BACKWARD demo_cfg 4 demo_in demo_state]
    handleSwipe_other_events [of GES_WAVE demo_cfg 1 demo_in demo_state]
    handleSwipe_other_events [of GES_UP demo_cfg 4 demo_in demo_state]
    handleSwipe_other_events [of GES_DOWN demo_cfg 1 demo_in demo_state]
    handleSwipe_other_events [of "GES_OTHER 77" demo_cfg 3 demo_in demo_state]
  by simp

end
